theory Spec2Isabelle
  imports Complex_Main "HOL-Library.Log_Nat" "HOL-Library.Word"
begin

section \<open>Python values and arithmetic used by \<open>Annotations.py\<close>\<close>

text \<open>
  A Python \<open>float\<close> is an IEEE-754 binary64 number. A finite one is a rational, and every
  arithmetic operation returns the exact result rounded to the nearest representable
  number, ties to the even significand. \<open>to_double\<close> is that rounding for the normal
  range (53-bit significand, unbounded exponent); infinities, NaN, the negative zero and
  subnormal numbers are outside the model.
\<close>

definition round_half_even :: "rat \<Rightarrow> int" where
  "round_half_even q =
     (let f = \<lfloor>q\<rfloor>; d = q - of_int f
      in if d < 1 / 2 then f else if 1 / 2 < d then f + 1 else if even f then f else f + 1)"

text \<open>The exponent \<open>e\<close> with \<open>2^e \<le> |q| < 2^(e+1)\<close>, for \<open>q \<noteq> 0\<close>.\<close>

definition binade :: "rat \<Rightarrow> int" where
  "binade q =
     (let e = bitlen (fst (quotient_of \<bar>q\<bar>)) - bitlen (snd (quotient_of \<bar>q\<bar>))
      in if power_int 2 e \<le> \<bar>q\<bar> then e else e - 1)"

definition to_double :: "rat \<Rightarrow> rat" where
  "to_double q =
     (if q = 0 then 0
      else of_int (round_half_even (q / power_int 2 (binade q - 52))) * power_int 2 (binade q - 52))"

datatype error =
    KeyError string
  | TypeError
  | ValueError
  | AttributeError
  | ZeroDivisionError
  | OverflowError
  | Cv2Error
  | InvalidFrame
  | NonTermination

definition ebind :: "error + 'a \<Rightarrow> ('a \<Rightarrow> error + 'b) \<Rightarrow> error + 'b" where
  "ebind m f = (case m of Inl e \<Rightarrow> Inl e | Inr x \<Rightarrow> f x)"

text \<open>\<open>float(i)\<close> for a Python int: correctly rounded, OverflowError beyond the range.\<close>

definition float_of_int :: "int \<Rightarrow> error + rat" where
  "float_of_int i =
     (if 2 ^ 1024 \<le> \<bar>to_double (of_int i)\<bar> then Inl OverflowError
      else Inr (to_double (of_int i)))"

definition fmul :: "rat \<Rightarrow> rat \<Rightarrow> rat" where
  "fmul a b = to_double (a * b)"

definition fsub :: "rat \<Rightarrow> rat \<Rightarrow> rat" where
  "fsub a b = to_double (a - b)"

definition fadd :: "rat \<Rightarrow> rat \<Rightarrow> rat" where
  "fadd a b = to_double (a + b)"

text \<open>\<open>int(x)\<close> for a float: truncation toward zero.\<close>

definition py_trunc :: "rat \<Rightarrow> int" where
  "py_trunc q = (if 0 \<le> q then \<lfloor>q\<rfloor> else \<lceil>q\<rceil>)"

section \<open>Styling attributes set by \<open>__init__\<close>\<close>

type_synonym colour = "int \<times> int \<times> int"

definition bbox_colours_standard :: colour where "bbox_colours_standard = (10, 255, 10)"
definition bbox_colours_offender :: colour where "bbox_colours_offender = (10, 10, 255)"
definition bbox_colours_trail :: colour where "bbox_colours_trail = (255, 10, 10)"

definition min_corner_radius :: int where "min_corner_radius = 5"
definition max_corner_radius :: int where "max_corner_radius = 30"
definition border_radius :: int where "border_radius = 6"
definition center_point_radius :: int where "center_point_radius = 5"
definition min_thickness :: int where "min_thickness = 1"
definition max_thickness :: int where "max_thickness = 5"
definition font_scale :: rat where "font_scale = 2"
definition font_colour :: colour where "font_colour = (255, 255, 255)"
definition font_thickness :: int where "font_thickness = 2"
definition bg_colour :: colour where "bg_colour = (0, 0, 0)"
definition label_padding :: int where "label_padding = 25"
definition padding :: int where "padding = 64"
definition trail_thickness :: int where "trail_thickness = 12"
definition end_point_thickness :: int where "end_point_thickness = 24"
definition size_factor :: rat where "size_factor = to_double (1 / 2)"
definition thickness_factor :: rat where "thickness_factor = to_double (1 / 100)"
definition thickness :: int where "thickness = 8"

section \<open>Corner radius and stroke thickness of \<open>annotate_bbox_corners\<close>\<close>

text \<open>
  Line 112: \<open>max(min(int(detection_size * self.size_factor), self.max_corner_radius),
  self.min_corner_radius)\<close>. The int is converted to a float, multiplied, and \<open>int\<close>
  truncates the product.
\<close>

definition corner_radius :: "int \<Rightarrow> error + int" where
  "corner_radius detection_size =
     ebind (float_of_int detection_size) (\<lambda>f.
       Inr (max (min (py_trunc (fmul f size_factor)) max_corner_radius) min_corner_radius))"

text \<open>
  Line 113: \<open>max(min(int(detection_size * self.thickness_factor) * 2, self.max_thickness),
  self.min_thickness)\<close>.
\<close>

definition corner_thickness :: "int \<Rightarrow> error + int" where
  "corner_thickness detection_size =
     ebind (float_of_int detection_size) (\<lambda>f.
       Inr (max (min (py_trunc (fmul f thickness_factor) * 2) max_thickness) min_thickness))"


section \<open>Detections and Python values\<close>

text \<open>
  A detection is a Python dict. The model is a record with one optional field per key the
  module reads; \<open>None\<close> is the absent key. The values are Python objects: \<open>PFloat\<close>
  carries the exact value of a finite float, \<open>PDict\<close> a dict with string keys
  (the \<open>license_plate\<close> sub-record).
\<close>

datatype pyval =
    PNone
  | PBool bool
  | PInt int
  | PFloat rat
  | PStr string
  | PDict "(string \<times> pyval) list"

record detection =
  ID :: "pyval option"
  classname :: "pyval option"
  confidence_score :: "pyval option"
  x1 :: "pyval option"
  y1 :: "pyval option"
  x2 :: "pyval option"
  y2 :: "pyval option"
  offender :: "pyval option"
  speed :: "pyval option"
  license_plate :: "pyval option"
  center_points :: "(int \<times> int) list option"

text \<open>A Python number: an int or a float.\<close>

datatype num = NInt int | NFloat rat

section \<open>Frames and the drawing backend\<close>

text \<open>
  A frame is a numpy array of shape \<open>(h, w, 3)\<close> with 8-bit channels: a list of rows of
  pixels. The width of an array without rows reads as 0. Frames live in a store and are
  passed by reference (an index into the store), since \<open>cv2\<close> draws in place.
\<close>

type_synonym pixel = "8 word \<times> 8 word \<times> 8 word"
type_synonym image = "pixel list list"
type_synonym store = "image list"
type_synonym frame = nat

text \<open>
  The collaborators this module calls but does not implement: the \<open>cv2\<close> primitives,
  \<open>BboxUtils.calculate_center_point\<close>, and the parts of the Python runtime that are not
  modelled further (\<open>str\<close> of a float or a dict, \<open>int\<close> of a string). The \<open>cv2\<close>
  primitives are taken to be total on the arguments this module passes.
\<close>

record backend =
  getTextSize :: "string \<Rightarrow> int \<Rightarrow> rat \<Rightarrow> int \<Rightarrow> int \<times> int"
  ellipse :: "image \<Rightarrow> int \<times> int \<Rightarrow> int \<times> int \<Rightarrow> int \<Rightarrow> int \<Rightarrow> int \<Rightarrow> colour \<Rightarrow> int \<Rightarrow> image"
  rectangle :: "image \<Rightarrow> int \<times> int \<Rightarrow> int \<times> int \<Rightarrow> colour \<Rightarrow> int \<Rightarrow> image"
  line :: "image \<Rightarrow> int \<times> int \<Rightarrow> int \<times> int \<Rightarrow> colour \<Rightarrow> int \<Rightarrow> image"
  circle :: "image \<Rightarrow> int \<times> int \<Rightarrow> int \<Rightarrow> colour \<Rightarrow> int \<Rightarrow> image"
  putText :: "image \<Rightarrow> string \<Rightarrow> int \<times> int \<Rightarrow> int \<Rightarrow> rat \<Rightarrow> colour \<Rightarrow> int \<Rightarrow> bool \<Rightarrow> image"
  resize :: "image \<Rightarrow> int \<times> int \<Rightarrow> image"
  calculate_center_point :: "detection \<Rightarrow> error + num \<times> num"
  float_repr :: "rat \<Rightarrow> string"
  dict_repr :: "(string \<times> pyval) list \<Rightarrow> string"
  int_of_str :: "string \<Rightarrow> int option"

text \<open>\<open>cv2.FONT_HERSHEY_DUPLEX\<close>.\<close>

definition font :: int where "font = 2"

text \<open>
  A computation on the store that returns a value or raises. The store is returned in
  both cases: what was drawn before an exception stays drawn.
\<close>

type_synonym 'a prog = "store \<Rightarrow> (error + 'a) \<times> store"

definition sreturn :: "'a \<Rightarrow> 'a prog" where
  "sreturn x = (\<lambda>st. (Inr x, st))"

definition lift :: "error + 'a \<Rightarrow> 'a prog" where
  "lift m = (\<lambda>st. (m, st))"

definition sbind :: "'a prog \<Rightarrow> ('a \<Rightarrow> 'b prog) \<Rightarrow> 'b prog" where
  "sbind m f = (\<lambda>st. case m st of (Inl e, st') \<Rightarrow> (Inl e, st') | (Inr x, st') \<Rightarrow> f x st')"

definition read_frame :: "frame \<Rightarrow> image prog" where
  "read_frame r = (\<lambda>st. if r < length st then (Inr (st ! r), st) else (Inl InvalidFrame, st))"

text \<open>An in-place operation on the array behind a reference.\<close>

definition draw :: "frame \<Rightarrow> (image \<Rightarrow> image) \<Rightarrow> unit prog" where
  "draw r f = sbind (read_frame r) (\<lambda>img st. (Inr (), st[r := f img]))"

fun draw_each :: "frame \<Rightarrow> (image \<Rightarrow> image) list \<Rightarrow> unit prog" where
  "draw_each r [] = sreturn ()"
| "draw_each r (f # fs) = sbind (draw r f) (\<lambda>_. draw_each r fs)"

text \<open>\<open>frame.copy()\<close>: a new array with the same contents.\<close>

definition copy :: "frame \<Rightarrow> frame prog" where
  "copy r = sbind (read_frame r) (\<lambda>img st. (Inr (length st), st @ [img]))"

definition img_height :: "image \<Rightarrow> int" where
  "img_height img = int (length img)"

definition img_width :: "image \<Rightarrow> int" where
  "img_width img = (case img of [] \<Rightarrow> 0 | r # _ \<Rightarrow> int (length r))"

text \<open>
  numpy slicing \<open>a[i:j]\<close> on an axis of length \<open>n\<close>: a negative bound counts from the
  end, and both bounds are clipped to \<open>[0, n]\<close>.
\<close>

definition slice_bound :: "int \<Rightarrow> int \<Rightarrow> int" where
  "slice_bound n i = (if i < 0 then max 0 (i + n) else min i n)"

definition slice_range :: "int \<Rightarrow> int \<Rightarrow> int \<Rightarrow> nat \<times> nat" where
  "slice_range n i j = (nat (slice_bound n i), nat (max (slice_bound n i) (slice_bound n j)))"

definition slice_list :: "'a list \<Rightarrow> int \<Rightarrow> int \<Rightarrow> 'a list" where
  "slice_list xs i j =
     (case slice_range (int (length xs)) i j of (s, e) \<Rightarrow> take (e - s) (drop s xs))"

text \<open>\<open>img[ya:yb, xa:xb]\<close>, read.\<close>

definition crop :: "image \<Rightarrow> int \<Rightarrow> int \<Rightarrow> int \<Rightarrow> int \<Rightarrow> image" where
  "crop img ya yb xa xb = map (\<lambda>row. slice_list row xa xb) (slice_list img ya yb)"

text \<open>\<open>img[ya:yb, xa:xb] = ...\<close>: the pixel at offset \<open>(i, j)\<close> of the region becomes \<open>f i j\<close>.\<close>

definition assign_region :: "image \<Rightarrow> int \<Rightarrow> int \<Rightarrow> int \<Rightarrow> int \<Rightarrow> (nat \<Rightarrow> nat \<Rightarrow> pixel) \<Rightarrow> image" where
  "assign_region img ya yb xa xb f =
     (case slice_range (img_height img) ya yb of (rs, re) \<Rightarrow>
      case slice_range (img_width img) xa xb of (cs, ce) \<Rightarrow>
        map (\<lambda>(i, row).
               if rs \<le> i \<and> i < re
               then take cs row @ map (f (i - rs)) [0..<ce - cs] @ drop ce row
               else row)
            (enumerate 0 img))"

text \<open>Assigning a colour tuple: it is broadcast over the region, whatever its shape.\<close>

definition fill_region :: "image \<Rightarrow> int \<Rightarrow> int \<Rightarrow> int \<Rightarrow> int \<Rightarrow> pixel \<Rightarrow> image" where
  "fill_region img ya yb xa xb px = assign_region img ya yb xa xb (\<lambda>_ _. px)"

text \<open>
  Assigning an array: its shape must be broadcastable to the shape of the region
  (each axis equal, or of length 1), else numpy raises ValueError.
\<close>

definition paste_region :: "image \<Rightarrow> int \<Rightarrow> int \<Rightarrow> int \<Rightarrow> int \<Rightarrow> image \<Rightarrow> error + image" where
  "paste_region img ya yb xa xb v =
     (case slice_range (img_height img) ya yb of (rs, re) \<Rightarrow>
      case slice_range (img_width img) xa xb of (cs, ce) \<Rightarrow>
        if (length v = re - rs \<or> length v = 1) \<and>
           (nat (img_width v) = ce - cs \<or> img_width v = 1)
        then Inr (assign_region img ya yb xa xb
                    (\<lambda>i j. v ! (if length v = 1 then 0 else i) ! (if img_width v = 1 then 0 else j)))
        else Inl ValueError)"

section \<open>Python built-ins on values\<close>

definition digit_char :: "nat \<Rightarrow> char" where
  "digit_char d = ''0123456789'' ! d"

fun show_nat :: "nat \<Rightarrow> string" where
  "show_nat n = (if n < 10 then [digit_char n] else show_nat (n div 10) @ [digit_char (n mod 10)])"

definition show_int :: "int \<Rightarrow> string" where
  "show_int i = (if i < 0 then CHR ''-'' # show_nat (nat (- i)) else show_nat (nat i))"

text \<open>
  \<open>format(x, '.2f')\<close> for a float: the exact value, correctly rounded to two decimals
  (ties to even), with the sign of the value.
\<close>

definition fixed2 :: "rat \<Rightarrow> string" where
  "fixed2 q =
     (let r = nat (round_half_even (\<bar>q\<bar> * 100))
      in (if q < 0 then [CHR ''-''] else []) @ show_nat (r div 100) @ [CHR ''.''] @
         [digit_char (r mod 100 div 10), digit_char (r mod 10)])"

text \<open>\<open>dict.get(key)\<close>: None for an absent key.\<close>

definition dget :: "pyval option \<Rightarrow> pyval" where
  "dget v = (case v of None \<Rightarrow> PNone | Some x \<Rightarrow> x)"

text \<open>\<open>dict[key]\<close>: KeyError for an absent key.\<close>

definition dkey :: "string \<Rightarrow> 'a option \<Rightarrow> error + 'a" where
  "dkey k v = (case v of None \<Rightarrow> Inl (KeyError k) | Some x \<Rightarrow> Inr x)"

text \<open>\<open>str(v)\<close>, which is what an f-string field without a format spec inserts.\<close>

fun py_str :: "backend \<Rightarrow> pyval \<Rightarrow> string" where
  "py_str be PNone = ''None''"
| "py_str be (PBool b) = (if b then ''True'' else ''False'')"
| "py_str be (PInt i) = show_int i"
| "py_str be (PFloat f) = float_repr be f"
| "py_str be (PStr s) = s"
| "py_str be (PDict kv) = dict_repr be kv"

text \<open>
  The f-string field \<open>{v:.2f}\<close>: an int or a bool is converted to a float first; None and
  a dict have no such format (TypeError), a string rejects the code \<open>f\<close> (ValueError).
\<close>

fun format_2f :: "pyval \<Rightarrow> error + string" where
  "format_2f PNone = Inl TypeError"
| "format_2f (PBool b) = Inr (fixed2 (if b then 1 else 0))"
| "format_2f (PInt i) = ebind (float_of_int i) (\<lambda>f. Inr (fixed2 f))"
| "format_2f (PFloat f) = Inr (fixed2 f)"
| "format_2f (PStr s) = Inl ValueError"
| "format_2f (PDict kv) = Inl TypeError"

text \<open>\<open>bool(v)\<close>.\<close>

fun py_bool :: "pyval \<Rightarrow> bool" where
  "py_bool PNone = False"
| "py_bool (PBool b) = b"
| "py_bool (PInt i) = (i \<noteq> 0)"
| "py_bool (PFloat f) = (f \<noteq> 0)"
| "py_bool (PStr s) = (s \<noteq> [])"
| "py_bool (PDict kv) = (kv \<noteq> [])"

text \<open>\<open>int(v)\<close>.\<close>

fun py_int :: "backend \<Rightarrow> pyval \<Rightarrow> error + int" where
  "py_int be PNone = Inl TypeError"
| "py_int be (PBool b) = Inr (if b then 1 else 0)"
| "py_int be (PInt i) = Inr i"
| "py_int be (PFloat f) = Inr (py_trunc f)"
| "py_int be (PStr s) = (case int_of_str be s of None \<Rightarrow> Inl ValueError | Some i \<Rightarrow> Inr i)"
| "py_int be (PDict kv) = Inl TypeError"

text \<open>The operand of an arithmetic operator: a number, else TypeError.\<close>

fun py_num :: "pyval \<Rightarrow> error + num" where
  "py_num (PBool b) = Inr (NInt (if b then 1 else 0))"
| "py_num (PInt i) = Inr (NInt i)"
| "py_num (PFloat f) = Inr (NFloat f)"
| "py_num v = Inl TypeError"

fun num_val :: "num \<Rightarrow> rat" where
  "num_val (NInt i) = of_int i"
| "num_val (NFloat f) = f"

fun num_int :: "num \<Rightarrow> int" where
  "num_int (NInt i) = i"
| "num_int (NFloat f) = py_trunc f"

text \<open>\<open>a - k\<close> and \<open>a + k\<close> for a Python int \<open>k\<close>.\<close>

fun num_sub :: "num \<Rightarrow> int \<Rightarrow> error + num" where
  "num_sub (NInt i) k = Inr (NInt (i - k))"
| "num_sub (NFloat f) k = ebind (float_of_int k) (\<lambda>g. Inr (NFloat (fsub f g)))"

fun num_add :: "num \<Rightarrow> int \<Rightarrow> error + num" where
  "num_add (NInt i) k = Inr (NInt (i + k))"
| "num_add (NFloat f) k = ebind (float_of_int k) (\<lambda>g. Inr (NFloat (fadd f g)))"

text \<open>\<open>max(k, a)\<close> and \<open>min(k, a)\<close> return the first argument unless the second beats it.\<close>

definition num_max :: "int \<Rightarrow> num \<Rightarrow> num" where
  "num_max k a = (if of_int k < num_val a then a else NInt k)"

definition num_min :: "int \<Rightarrow> num \<Rightarrow> num" where
  "num_min k a = (if num_val a < of_int k then a else NInt k)"

text \<open>The text argument of \<open>cv2.getTextSize\<close> and \<open>cv2.putText\<close> must be a str.\<close>

fun as_text :: "pyval \<Rightarrow> error + string" where
  "as_text (PStr s) = Inr s"
| "as_text v = Inl TypeError"

section \<open>The methods of \<open>Annotations\<close>\<close>

definition fetch_bbox_colour :: "detection \<Rightarrow> colour" where
  "fetch_bbox_colour d =
     (if py_bool (case offender d of None \<Rightarrow> PBool False | Some v \<Rightarrow> v)
      then bbox_colours_offender else bbox_colours_standard)"

definition detection_size :: "int \<Rightarrow> int \<Rightarrow> int \<Rightarrow> int \<Rightarrow> int" where
  "detection_size bx1 by1 bx2 by2 = min (bx2 - bx1) (by2 - by1)"

definition bbox_corners :: "int \<Rightarrow> int \<Rightarrow> int \<Rightarrow> int \<Rightarrow> int \<Rightarrow> ((int \<times> int) \<times> int \<times> int) list" where
  "bbox_corners bx1 by1 bx2 by2 r =
     [((bx1 + r, by1 + r), 180, 270),
      ((bx1 + r, by2 - r), 90, 180),
      ((bx2 - r, by1 + r), 270, 360),
      ((bx2 - r, by2 - r), 0, 90)]"

definition annotate_bbox_corners :: "backend \<Rightarrow> frame \<Rightarrow> detection \<Rightarrow> frame prog" where
  "annotate_bbox_corners be fr d =
     sbind (lift (ebind (dkey ''x1'' (x1 d)) (py_int be))) (\<lambda>bx1.
     sbind (lift (ebind (dkey ''y1'' (y1 d)) (py_int be))) (\<lambda>by1.
     sbind (lift (ebind (dkey ''x2'' (x2 d)) (py_int be))) (\<lambda>bx2.
     sbind (lift (ebind (dkey ''y2'' (y2 d)) (py_int be))) (\<lambda>by2.
     sbind (lift (corner_radius (detection_size bx1 by1 bx2 by2))) (\<lambda>r.
     sbind (lift (corner_thickness (detection_size bx1 by1 bx2 by2))) (\<lambda>t.
     sbind (draw_each fr
              (map (\<lambda>(c, start_angle, end_angle) img.
                      ellipse be img c (r, r) 0 start_angle end_angle (fetch_bbox_colour d) t)
                   (bbox_corners bx1 by1 bx2 by2 r))) (\<lambda>_.
     sreturn fr)))))))"

text \<open>The constants of the shrink-to-fit loop: \<open>min_font_scale = 0.8\<close> and the step \<open>0.1\<close>.\<close>

definition min_font_scale :: rat where "min_font_scale = to_double (8 / 10)"
definition font_scale_step :: rat where "font_scale_step = to_double (1 / 10)"

text \<open>
  The \<open>while\<close> loop of \<open>fetch_text_properties\<close> (lines 167-172), from the current text
  size and font scale. \<open>None\<close> is a loop that does not return.
\<close>

partial_function (option) shrink_to_fit ::
    "backend \<Rightarrow> string \<Rightarrow> int \<Rightarrow> int \<times> int \<Rightarrow> rat \<Rightarrow> ((int \<times> int) \<times> rat) option" where
  "shrink_to_fit be label max_text_width text_size current_font_scale =
     (if fst text_size > max_text_width \<and> current_font_scale > min_font_scale
      then shrink_to_fit be label max_text_width
             (getTextSize be label font (fsub current_font_scale font_scale_step) font_thickness)
             (fsub current_font_scale font_scale_step)
      else Some (text_size, current_font_scale))"

text \<open>The same loop, counting its iterations.\<close>

partial_function (option) shrink_to_fit_steps ::
    "backend \<Rightarrow> string \<Rightarrow> int \<Rightarrow> int \<times> int \<Rightarrow> rat \<Rightarrow> nat \<Rightarrow> (((int \<times> int) \<times> rat) \<times> nat) option" where
  "shrink_to_fit_steps be label max_text_width text_size current_font_scale n =
     (if fst text_size > max_text_width \<and> current_font_scale > min_font_scale
      then shrink_to_fit_steps be label max_text_width
             (getTextSize be label font (fsub current_font_scale font_scale_step) font_thickness)
             (fsub current_font_scale font_scale_step) (Suc n)
      else Some ((text_size, current_font_scale), n))"

definition fetch_text_properties :: "backend \<Rightarrow> string \<Rightarrow> frame \<Rightarrow> ((int \<times> int) \<times> rat) prog" where
  "fetch_text_properties be label fr =
     sbind (read_frame fr) (\<lambda>img.
       lift (case shrink_to_fit be label (img_width img - label_padding * 2)
                    (getTextSize be label font font_scale font_thickness) font_scale of
               None \<Rightarrow> Inl NonTermination
             | Some r \<Rightarrow> Inr r))"

record label_position =
  pos_x :: int
  pos_y :: int
  pos_width :: int
  pos_height :: int

definition calculate_label_position :: "int \<Rightarrow> num \<times> num \<Rightarrow> int \<times> int \<Rightarrow> error + label_position" where
  "calculate_label_position bbox_bottom center_point text_size =
     (case text_size of (text_width, text_height) \<Rightarrow>
        ebind (num_sub (fst center_point) (text_width div 2)) (\<lambda>cx.
          Inr \<lparr>pos_x = num_int cx,
               pos_y = bbox_bottom + text_height + label_padding,
               pos_width = text_width + 2 * label_padding,
               pos_height = text_height + 2 * label_padding\<rparr>))"

definition get_label_dimensions :: "backend \<Rightarrow> string \<Rightarrow> frame \<Rightarrow> (int \<times> int) prog" where
  "get_label_dimensions be label fr =
     sbind (fetch_text_properties be label fr) (\<lambda>((text_width, text_height), _).
       sreturn (text_width + 2 * label_padding, text_height + 2 * label_padding))"

definition label_corners :: "label_position \<Rightarrow> (int \<times> int \<times> int \<times> int) list" where
  "label_corners p =
     [(pos_x p + border_radius, pos_y p + border_radius, 180, 270),
      (pos_x p + pos_width p - border_radius, pos_y p + border_radius, 270, 360),
      (pos_x p + border_radius, pos_y p + pos_height p - border_radius, 90, 180),
      (pos_x p + pos_width p - border_radius, pos_y p + pos_height p - border_radius, 0, 90)]"

definition draw_label_background :: "backend \<Rightarrow> frame \<Rightarrow> label_position \<Rightarrow> frame prog" where
  "draw_label_background be fr p =
     sbind (draw fr (\<lambda>img. rectangle be img (pos_x p + border_radius, pos_y p)
                       (pos_x p + pos_width p - border_radius, pos_y p + pos_height p) bg_colour (- 1))) (\<lambda>_.
     sbind (draw fr (\<lambda>img. rectangle be img (pos_x p, pos_y p + border_radius)
                       (pos_x p + pos_width p, pos_y p + pos_height p - border_radius) bg_colour (- 1))) (\<lambda>_.
     sbind (draw_each fr
              (map (\<lambda>(center_x, center_y, start_angle, end_angle) img.
                      ellipse be img (center_x, center_y) (border_radius, border_radius) 0
                        start_angle end_angle bg_colour (- 1))
                   (label_corners p))) (\<lambda>_.
     sreturn fr)))"

definition draw_label_text ::
    "backend \<Rightarrow> frame \<Rightarrow> string \<Rightarrow> label_position \<Rightarrow> int \<times> int \<Rightarrow> rat \<Rightarrow> frame prog" where
  "draw_label_text be fr label p text_size scale =
     sbind (draw fr (\<lambda>img. putText be img label
                       (pos_x p + label_padding, pos_y p + snd text_size + label_padding)
                       font scale font_colour font_thickness True)) (\<lambda>_.
     sreturn fr)"


text \<open>\<open>detection.get('license_plate', {}).get('plate_text', '')\<close>\<close>

definition plate_text :: "detection \<Rightarrow> error + pyval" where
  "plate_text d =
     (case license_plate d of
        None \<Rightarrow> Inr (PStr [])
      | Some (PDict kv) \<Rightarrow> Inr (case map_of kv ''plate_text'' of None \<Rightarrow> PStr [] | Some v \<Rightarrow> v)
      | Some _ \<Rightarrow> Inl AttributeError)"

text \<open>
  \<open>create_label\<close> builds the dict of all five labels first, so every f-string is
  evaluated whatever the vision type, in the order of the dict literal; then it looks the
  vision type up with the default \<open>'object_detection'\<close>.
\<close>

definition detection_labels ::
    "backend \<Rightarrow> detection \<Rightarrow> pyval \<Rightarrow> error + (string \<times> string) list" where
  "detection_labels be d captured_at =
     ebind (format_2f (dget (confidence_score d))) (\<lambda>conf.
     ebind (plate_text d) (\<lambda>plate.
       Inr [(''object_detection'',
               ''ID: '' @ py_str be (dget (ID d)) @ '' | Class: '' @ py_str be (dget (classname d)) @
               '' | Confidence Score: '' @ conf),
            (''object_tracking'', ''ID: '' @ py_str be (dget (ID d))),
            (''speed_estimation'',
               ''ID: '' @ py_str be (dget (ID d)) @ '' | Speed: '' @ py_str be (dget (speed d)) @ ''mph''),
            (''plate_reading'', ''ID: '' @ py_str be (dget (ID d)) @ '' | Plate: '' @ py_str be plate),
            (''traffic_violation'',
               ''ID: '' @ py_str be (dget (ID d)) @ '' | Captured: '' @ py_str be captured_at @
               '' | Speed: '' @ py_str be (dget (speed d)) @ ''mph'')]))"

definition create_label :: "backend \<Rightarrow> detection \<Rightarrow> string \<Rightarrow> pyval \<Rightarrow> error + string" where
  "create_label be d vision_type captured_at =
     ebind (detection_labels be d captured_at) (\<lambda>labels.
       Inr (case map_of labels vision_type of None \<Rightarrow> ''object_detection'' | Some l \<Rightarrow> l))"

definition annotate_center_point :: "backend \<Rightarrow> frame \<Rightarrow> int \<times> int \<Rightarrow> frame prog" where
  "annotate_center_point be fr center_point =
     sbind (draw fr (\<lambda>img. circle be img center_point center_point_radius
                       bbox_colours_offender thickness)) (\<lambda>_.
     sreturn fr)"

definition annotate_center_point_trail :: "backend \<Rightarrow> frame \<Rightarrow> (int \<times> int) list \<Rightarrow> frame prog" where
  "annotate_center_point_trail be fr pts =
     (if length pts < 2 then sreturn fr
      else
        sbind (draw_each fr
                 (map (\<lambda>x img. line be img (pts ! (x - 1)) (pts ! x) bbox_colours_trail trail_thickness)
                      [1..<length pts])) (\<lambda>_.
        sbind (annotate_center_point be fr (pts ! 0)) (\<lambda>_.
        sbind (annotate_center_point be fr (last pts)) (\<lambda>_.
        sreturn fr))))"

definition annotate_label :: "backend \<Rightarrow> frame \<Rightarrow> detection \<Rightarrow> string \<Rightarrow> frame prog" where
  "annotate_label be fr d vision_type =
     sbind (lift (create_label be d vision_type PNone)) (\<lambda>detection_label.
     sbind (lift (ebind (dkey ''y2'' (y2 d)) (py_int be))) (\<lambda>by2.
     sbind (lift (calculate_center_point be d)) (\<lambda>center.
     sbind (if vision_type = ''object_tracking''
            then annotate_center_point_trail be fr
                   (case center_points d of None \<Rightarrow> [] | Some pts \<Rightarrow> pts)
            else sreturn fr) (\<lambda>fr1.
     sbind (fetch_text_properties be detection_label fr1) (\<lambda>(text_size, scale).
     sbind (lift (calculate_label_position by2 center text_size)) (\<lambda>label_position.
     sbind (draw_label_background be fr1 label_position) (\<lambda>fr2.
     draw_label_text be fr2 detection_label label_position text_size scale)))))))"

fun annotate_frame :: "backend \<Rightarrow> frame \<Rightarrow> detection list \<Rightarrow> string \<Rightarrow> frame prog" where
  "annotate_frame be fr [] vision_type = sreturn fr"
| "annotate_frame be fr (d # ds) vision_type =
     sbind (annotate_bbox_corners be fr d) (\<lambda>fr1.
     sbind (annotate_label be fr1 d vision_type) (\<lambda>fr2.
     annotate_frame be fr2 ds vision_type))"


section \<open>\<open>capture_traffic_violation\<close>\<close>

text \<open>
  Lines 469-472: \<open>int(max(0, v - self.padding))\<close> and \<open>int(min(bound, v + self.padding))\<close>,
  on the raw coordinate of the detection.
\<close>

definition padded_low :: "pyval \<Rightarrow> error + int" where
  "padded_low v =
     ebind (py_num v) (\<lambda>n. ebind (num_sub n padding) (\<lambda>m. Inr (num_int (num_max 0 m))))"

definition padded_high :: "int \<Rightarrow> pyval \<Rightarrow> error + int" where
  "padded_high bound v =
     ebind (py_num v) (\<lambda>n. ebind (num_add n padding) (\<lambda>m. Inr (num_int (num_min bound m))))"

text \<open>A float result beyond the range is an infinity, which \<open>int\<close> refuses.\<close>

definition check_finite :: "rat \<Rightarrow> error + rat" where
  "check_finite q = (if 2 ^ 1024 \<le> \<bar>q\<bar> then Inl OverflowError else Inr q)"

text \<open>
  Line 479: \<open>int((padded_y2 - padded_y1) * (overlay_width / (padded_x2 - padded_x1)))\<close>,
  with \<open>ph\<close> the height and \<open>pw\<close> the width of the padded box. The quotient of two ints
  is the correctly rounded float.
\<close>

definition overlay_height_of :: "int \<Rightarrow> int \<Rightarrow> int \<Rightarrow> error + int" where
  "overlay_height_of ph overlay_width pw =
     (if pw = 0 then Inl ZeroDivisionError
      else
        ebind (check_finite (to_double (of_int overlay_width / of_int pw))) (\<lambda>ratio.
        ebind (float_of_int ph) (\<lambda>f.
        ebind (check_finite (fmul f ratio)) (\<lambda>p.
        Inr (py_trunc p)))))"

text \<open>
  \<open>cv2.resize(src, (w, h))\<close> fails on an empty source and on a size that is not positive.
\<close>

definition cv2_resize :: "backend \<Rightarrow> image \<Rightarrow> int \<Rightarrow> int \<Rightarrow> error + image" where
  "cv2_resize be src w h =
     (if img_height src = 0 \<or> img_width src = 0 \<or> w \<le> 0 \<or> h \<le> 0 then Inl Cv2Error
      else Inr (resize be src (w, h)))"

text \<open>Line 489: the test the code makes before the paste.\<close>

definition overlay_guard :: "int \<Rightarrow> int \<Rightarrow> int \<Rightarrow> int \<Rightarrow> int \<Rightarrow> int \<Rightarrow> bool" where
  "overlay_guard h w overlay_x overlay_y overlay_width overlay_height =
     (overlay_y + overlay_height \<le> h \<and> overlay_x + overlay_width \<le> w)"

text \<open>Lines 489-495: the guarded paste of the upscaled crop.\<close>

definition paste_overlay ::
    "frame \<Rightarrow> int \<Rightarrow> int \<Rightarrow> int \<Rightarrow> int \<Rightarrow> int \<Rightarrow> int \<Rightarrow> image \<Rightarrow> unit prog" where
  "paste_overlay fr h w overlay_x overlay_y overlay_width overlay_height upscaled =
     (if overlay_guard h w overlay_x overlay_y overlay_width overlay_height
      then
        sbind (read_frame fr) (\<lambda>img.
        sbind (lift (paste_region img overlay_y (overlay_y + overlay_height)
                       overlay_x (overlay_x + overlay_width) upscaled)) (\<lambda>img'.
        draw fr (\<lambda>_. img')))
      else sreturn ())"

text \<open>Lines 498-523: the black bar at the bottom of the overlay and the plate text.\<close>

definition render_license_plate ::
    "backend \<Rightarrow> frame \<Rightarrow> pyval \<Rightarrow> int \<Rightarrow> int \<Rightarrow> int \<Rightarrow> int \<Rightarrow> unit prog" where
  "render_license_plate be fr plate overlay_x overlay_y overlay_width overlay_height =
     sbind (read_frame fr) (\<lambda>img0.
     sbind (draw fr (\<lambda>img. fill_region img
                       (overlay_y + overlay_height - img_height img0 div 14)
                       (overlay_y + overlay_height)
                       overlay_x (overlay_x + overlay_width) (0, 0, 0))) (\<lambda>_.
     sbind (lift (as_text plate)) (\<lambda>txt.
     sbind (fetch_text_properties be txt fr) (\<lambda>((plate_text_width, plate_text_height), plate_font_scale).
     draw fr (\<lambda>img. putText be img txt
                (overlay_x + (overlay_width - plate_text_width) div 2,
                 overlay_y + overlay_height - img_height img0 div 14
                   + (img_height img0 div 14 + plate_text_height) div 2)
                font plate_font_scale font_colour font_thickness False)))))"

text \<open>Lines 525-553: the full-width bar at the bottom of the frame and the capture label.\<close>

definition append_capture_metadata ::
    "backend \<Rightarrow> frame \<Rightarrow> detection \<Rightarrow> pyval \<Rightarrow> int \<Rightarrow> int \<Rightarrow> unit prog" where
  "append_capture_metadata be fr d captured_at h w =
     sbind (lift (create_label be d ''traffic_violation'' captured_at)) (\<lambda>label.
     sbind (fetch_text_properties be label fr) (\<lambda>((label_text_width, label_text_height), label_font_scale).
     sbind (draw fr (\<lambda>img. fill_region img (h - (label_text_height + padding * 2)) h 0 w (0, 0, 0))) (\<lambda>_.
     draw fr (\<lambda>img. putText be img label
                (w div 2 - label_text_width div 2,
                 h - (label_text_height + padding * 2) + (label_text_height + padding * 2) div 2
                   + label_text_height div 2)
                font label_font_scale font_colour font_thickness False))))"

text \<open>
  Lines 456-482: the bounding box is read, the frame copied, the corners drawn on the
  copy, the padded box cropped and the crop resized. The result is the copy, its height
  and width, the height of the overlay and the upscaled crop. The crop is a view of the
  annotated frame; it is read by \<open>cv2.resize\<close> before anything else is drawn, so the model
  takes it by value.
\<close>

definition crop_and_upscale ::
    "backend \<Rightarrow> frame \<Rightarrow> detection \<Rightarrow> (frame \<times> int \<times> int \<times> int \<times> image) prog" where
  "crop_and_upscale be fr d =
     sbind (lift (dkey ''x1'' (x1 d))) (\<lambda>vx1.
     sbind (lift (dkey ''x2'' (x2 d))) (\<lambda>vx2.
     sbind (lift (dkey ''y1'' (y1 d))) (\<lambda>vy1.
     sbind (lift (dkey ''y2'' (y2 d))) (\<lambda>vy2.
     sbind (copy fr) (\<lambda>captured_frame.
     sbind (annotate_bbox_corners be captured_frame d) (\<lambda>annotated_frame.
     sbind (read_frame annotated_frame) (\<lambda>img.
     sbind (lift (padded_low vx1)) (\<lambda>padded_x1.
     sbind (lift (padded_low vy1)) (\<lambda>padded_y1.
     sbind (lift (padded_high (img_width img) vx2)) (\<lambda>padded_x2.
     sbind (lift (padded_high (img_height img) vy2)) (\<lambda>padded_y2.
     sbind (lift (overlay_height_of (padded_y2 - padded_y1) (img_width img div 4)
                    (padded_x2 - padded_x1))) (\<lambda>overlay_height.
     sbind (lift (cv2_resize be
                    (crop img padded_y1 (padded_y2 + padding) padded_x1 (padded_x2 + padding))
                    (img_width img div 4) overlay_height)) (\<lambda>upscaled.
     sreturn (annotated_frame, img_height img, img_width img, overlay_height, upscaled))))))))))))))"

text \<open>
  The whole method, with \<open>overlay_width = w // 4\<close>, \<open>overlay_x = w - overlay_width -
  self.padding\<close> and \<open>overlay_y = self.padding\<close>. \<open>print\<close> writes to the standard output,
  which is not part of the model.
\<close>

definition capture_traffic_violation ::
    "backend \<Rightarrow> frame \<Rightarrow> detection \<Rightarrow> pyval \<Rightarrow> frame prog" where
  "capture_traffic_violation be fr d captured_at =
     sbind (lift (plate_text d)) (\<lambda>plate.
     sbind (crop_and_upscale be fr d) (\<lambda>(annotated_frame, h, w, overlay_height, upscaled).
     sbind (paste_overlay annotated_frame h w (w - w div 4 - padding) padding
              (w div 4) overlay_height upscaled) (\<lambda>_.
     sbind (render_license_plate be annotated_frame plate (w - w div 4 - padding) padding
              (w div 4) overlay_height) (\<lambda>_.
     sbind (append_capture_metadata be annotated_frame d captured_at h w) (\<lambda>_.
     sreturn annotated_frame)))))"

text \<open>
  A fake canvas with a fixed measured text size, for running the methods: the drawing
  primitives leave the image as it is, and \<open>resize\<close> samples the nearest pixel.
\<close>

definition nearest_resize :: "image \<Rightarrow> int \<times> int \<Rightarrow> image" where
  "nearest_resize src dsize =
     (case dsize of (w, h) \<Rightarrow>
        map (\<lambda>i. map (\<lambda>j. src ! (i * length src div nat h) ! (j * nat (img_width src) div nat w))
                      [0..<nat w])
            [0..<nat h])"

definition fake_canvas :: "int \<times> int \<Rightarrow> backend" where
  "fake_canvas text_size =
     \<lparr>getTextSize = (\<lambda>_ _ _ _. text_size),
      ellipse = (\<lambda>img _ _ _ _ _ _ _. img),
      rectangle = (\<lambda>img _ _ _ _. img),
      line = (\<lambda>img _ _ _ _. img),
      circle = (\<lambda>img _ _ _ _. img),
      putText = (\<lambda>img _ _ _ _ _ _ _. img),
      resize = nearest_resize,
      calculate_center_point = (\<lambda>_. Inr (NInt 0, NInt 0)),
      float_repr = (\<lambda>_. ''0.0''),
      dict_repr = (\<lambda>_. ''{}''),
      int_of_str = (\<lambda>_. None)\<rparr>"

text \<open>The font scales the shrink-to-fit loop passes through, from the baseline.\<close>

fun scale_seq :: "nat \<Rightarrow> rat" where
  "scale_seq 0 = font_scale"
| "scale_seq (Suc n) = fsub (scale_seq n) font_scale_step"

section \<open>The specification's formulas\<close>

text \<open>
  The specification's words for the stroke thickness,
  \<open>clamp(round(size * 0.01) * 2, [min_thickness, max_thickness])\<close>, and for the corner
  radius, \<open>clamp(size * 0.5, [min_radius, max_radius])\<close>, over exact arithmetic.
\<close>

definition spec_thickness :: "int \<Rightarrow> int" where
  "spec_thickness s = max (min (round (of_int s * (1 / 100 :: rat)) * 2) max_thickness) min_thickness"

definition spec_radius :: "int \<Rightarrow> rat" where
  "spec_radius s = max (min (of_int s * (1 / 2)) (of_int max_corner_radius)) (of_int min_corner_radius)"

text \<open>The specification's overlay rectangle that fits entirely within the frame bounds.\<close>

definition fits_within_frame :: "int \<Rightarrow> int \<Rightarrow> int \<Rightarrow> int \<Rightarrow> int \<Rightarrow> int \<Rightarrow> bool" where
  "fits_within_frame h w overlay_x overlay_y overlay_width overlay_height =
     (0 \<le> overlay_x \<and> 0 \<le> overlay_y \<and> overlay_x + overlay_width \<le> w \<and> overlay_y + overlay_height \<le> h)"

text \<open>
  The specification's label box is horizontally centered on the detection's center x:
  the middle of \<open>[x, x + width]\<close> is \<open>cx\<close>.
\<close>

definition horizontally_centered :: "label_position \<Rightarrow> rat \<Rightarrow> bool" where
  "horizontally_centered p cx = (of_int (pos_x p) + of_int (pos_width p) / 2 = cx)"

text \<open>The specification's default label: the \<open>object_detection\<close> template.\<close>

definition object_detection_label :: "backend \<Rightarrow> detection \<Rightarrow> error + string" where
  "object_detection_label be d = create_label be d ''object_detection'' PNone"


text \<open>A detection as the tracker supplies it, for running the methods.\<close>

definition example_detection :: detection where
  "example_detection =
     \<lparr>ID = Some (PInt 7), classname = Some (PStr ''car''),
      confidence_score = Some (PFloat (1 / 2)),
      x1 = Some (PInt 0), y1 = Some (PInt 0), x2 = Some (PInt 4), y2 = Some (PInt 4),
      offender = Some (PBool True), speed = Some (PInt 42),
      license_plate = Some (PDict [(''plate_text'', PStr ''AB12 CDE'')]),
      center_points = None\<rparr>"

text \<open>
  A computation is confined above \<open>n\<close> when, on a store of at least \<open>n\<close> arrays, it keeps
  the number of arrays and the first \<open>n\<close> of them as they are; \<open>P\<close> holds of what it
  returns.
\<close>

definition confined :: "nat \<Rightarrow> ('a \<Rightarrow> bool) \<Rightarrow> 'a prog \<Rightarrow> bool" where
  "confined n P m =
     (\<forall>st. n \<le> length st \<longrightarrow>
        length (snd (m st)) = length st \<and> take n (snd (m st)) = take n st \<and>
        (case fst (m st) of Inl e \<Rightarrow> True | Inr x \<Rightarrow> P x))"

text \<open>A black frame of 4 by 4 pixels.\<close>

definition small_frame :: image where
  "small_frame = replicate 4 (replicate 4 (0, 0, 0))"

text \<open>
  A frame of 80 rows by 40 columns, white on its left half and black on its right half,
  with a detection at its bottom edge; and an image of 16 rows by 10 columns with the
  same two halves.
\<close>

definition narrow_row :: "pixel list" where
  "narrow_row = replicate 20 (255, 255, 255) @ replicate 20 (0, 0, 0)"

definition narrow_frame :: image where
  "narrow_frame = replicate 80 narrow_row"

definition edge_detection :: detection where
  "edge_detection =
     \<lparr>ID = Some (PInt 3), classname = Some (PStr ''car''),
      confidence_score = Some (PFloat (1 / 2)),
      x1 = Some (PInt 10), y1 = Some (PInt 78), x2 = Some (PInt 20), y2 = Some (PInt 80),
      offender = Some (PBool True), speed = Some (PInt 42),
      license_plate = Some (PDict [(''plate_text'', PStr ''AB12 CDE'')]),
      center_points = None\<rparr>"

definition striped_overlay :: image where
  "striped_overlay = replicate 16 (replicate 5 (255, 255, 255) @ replicate 5 (0, 0, 0))"

text \<open>A black frame of 81 rows by 64 columns.\<close>

definition wide_frame :: image where
  "wide_frame = replicate 81 (replicate 64 (0, 0, 0))"

section \<open>Rounding to a float: bounds, monotonicity, exact values\<close>

lemma rhe_of_int [simp]: "round_half_even (of_int n) = n"
  by (simp add: round_half_even_def)

lemma rhe_bounds: "of_int (round_half_even q) \<le> q + 1/2" "q - 1/2 \<le> of_int (round_half_even q)"
  unfolding round_half_even_def Let_def by (auto; linarith)+

lemma rhe_mono: assumes "x \<le> y" shows "round_half_even x \<le> round_half_even y"
proof (cases "\<lfloor>x\<rfloor> = \<lfloor>y\<rfloor>")
  case True
  then show ?thesis using assms unfolding round_half_even_def Let_def by auto
next
  case False
  with assms have lt: "\<lfloor>x\<rfloor> < \<lfloor>y\<rfloor>" using floor_mono[OF assms] by linarith
  have a: "round_half_even x \<le> \<lfloor>x\<rfloor> + 1" unfolding round_half_even_def Let_def by auto
  have b: "\<lfloor>y\<rfloor> \<le> round_half_even y" unfolding round_half_even_def Let_def by auto
  from a b lt show ?thesis by linarith
qed

lemma rhe_minus: "round_half_even (- q) = - round_half_even q"
proof (cases "q = of_int \<lfloor>q\<rfloor>")
  case True
  then obtain n where "q = of_int n" by metis
  then show ?thesis by (simp flip: of_int_minus)
next
  case False
  then have fl: "\<lfloor>- q\<rfloor> = - \<lfloor>q\<rfloor> - 1"
    by (simp add: floor_minus ceiling_altdef)
  show ?thesis unfolding round_half_even_def Let_def fl
    by (auto simp: field_simps)
qed



lemma pi2_pos: "0 < power_int (2::rat) n"
  by (simp add: zero_less_power_int)

lemma pi2_nat: "0 \<le> n \<Longrightarrow> power_int (2::rat) n = of_int (2 ^ nat n)"
  by (simp add: power_int_def)

lemma pi2_mono: "m \<le> n \<Longrightarrow> power_int (2::rat) m \<le> power_int 2 n"
  by (rule power_int_increasing) simp_all

lemma pi2_less_cancel: "power_int (2::rat) m < power_int 2 n \<Longrightarrow> m < n"
  using pi2_mono[of n m] by (cases "m < n") auto

lemma binade_bounds:
  assumes "q \<noteq> 0"
  shows "power_int 2 (binade q) \<le> \<bar>q\<bar>" "\<bar>q\<bar> < power_int 2 (binade q + 1)"
proof -
  obtain a b where ab: "quotient_of \<bar>q\<bar> = (a, b)" by (cases "quotient_of \<bar>q\<bar>")
  have b: "0 < b" using ab quotient_of_denom_pos by blast
  have q: "\<bar>q\<bar> = of_int a / of_int b" using ab quotient_of_div by blast
  have a: "0 < a"
  proof -
    have "0 < \<bar>q\<bar>" using assms by simp
    then have "0 < (of_int a :: rat) / of_int b" using q by simp
    then show ?thesis using b by (simp add: zero_less_divide_iff)
  qed
  define la where "la = bitlen a"
  define lb where "lb = bitlen b"
  have ba: "2 ^ nat (la - 1) \<le> a" "a < 2 ^ nat la" using bitlen_bounds[OF a] la_def by auto
  have bb: "2 ^ nat (lb - 1) \<le> b" "b < 2 ^ nat lb" using bitlen_bounds[OF b] lb_def by auto
  have la1: "1 \<le> la"
  proof (rule ccontr)
    assume "\<not> 1 \<le> la"
    then have "nat la = 0" by simp
    with ba(2) a show False by simp
  qed
  have lb1: "1 \<le> lb"
  proof (rule ccontr)
    assume "\<not> 1 \<le> lb"
    then have "nat lb = 0" by simp
    with bb(2) b show False by simp
  qed
  have A1: "power_int 2 (la - 1) \<le> (of_int a :: rat)"
    using ba(1) la1 by (simp add: pi2_nat del: of_int_power)
  have A2: "(of_int a :: rat) < power_int 2 la"
    using ba(2) la1 by (simp add: pi2_nat del: of_int_power)
  have B1: "power_int 2 (lb - 1) \<le> (of_int b :: rat)"
    using bb(1) lb1 by (simp add: pi2_nat del: of_int_power)
  have B2: "(of_int b :: rat) < power_int 2 lb"
    using bb(2) lb1 by (simp add: pi2_nat del: of_int_power)
  have bpos: "(0::rat) < of_int b" using b by simp
  have apos: "(0::rat) < of_int a" using a by simp
  have up: "\<bar>q\<bar> < power_int 2 (la - lb + 1)"
  proof -
    have "of_int a / of_int b < power_int 2 la / (of_int b :: rat)"
      using A2 bpos by (simp add: divide_strict_right_mono)
    also have "\<dots> \<le> power_int 2 la / power_int 2 (lb - 1)"
      using B1 pi2_pos[of la] pi2_pos[of "lb - 1"] by (simp add: frac_le)
    also have "\<dots> = power_int 2 (la - (lb - 1))"
      by (simp add: power_int_diff)
    finally show ?thesis using q by (simp add: algebra_simps)
  qed
  have lo: "power_int 2 (la - lb - 1) \<le> \<bar>q\<bar>"
  proof -
    have e: "la - lb - 1 = (la - 1) - lb" by simp
    have "power_int 2 (la - lb - 1) = power_int (2::rat) (la - 1) / power_int 2 lb"
      unfolding e using power_int_diff[of "2::rat" "la - 1" lb] by simp
    also have "\<dots> \<le> of_int a / power_int 2 lb"
      using A1 pi2_pos[of lb] by (simp add: divide_right_mono)
    also have "\<dots> \<le> of_int a / of_int b"
      using B2 apos bpos by (simp add: frac_le)
    finally show ?thesis using q by simp
  qed
  have bin: "binade q = (if power_int 2 (la - lb) \<le> \<bar>q\<bar> then la - lb else la - lb - 1)"
    unfolding binade_def Let_def ab la_def lb_def by simp
  show "power_int 2 (binade q) \<le> \<bar>q\<bar>" using lo bin by auto
  show "\<bar>q\<bar> < power_int 2 (binade q + 1)" using up bin by (auto simp: not_le)
qed

lemma binade_unique:
  assumes "power_int 2 e \<le> \<bar>q\<bar>" "\<bar>q\<bar> < power_int 2 (e + 1)"
  shows "binade q = e"
proof -
  have q0: "q \<noteq> 0"
  proof
    assume "q = 0"
    with assms(1) have "power_int (2::rat) e \<le> 0" by simp
    with pi2_pos[of e] show False by linarith
  qed
  note b = binade_bounds[OF q0]
  have "power_int (2::rat) e < power_int 2 (binade q + 1)" using assms(1) b(2) by linarith
  then have 1: "e < binade q + 1" by (rule pi2_less_cancel)
  have "power_int (2::rat) (binade q) < power_int 2 (e + 1)" using assms(2) b(1) by linarith
  then have 2: "binade q < e + 1" by (rule pi2_less_cancel)
  from 1 2 show ?thesis by simp
qed

lemma binade_minus [simp]: "binade (- q) = binade q"
  by (simp add: binade_def)

lemma binade_mono:
  assumes "q \<noteq> 0" "\<bar>q\<bar> \<le> \<bar>r\<bar>"
  shows "binade q \<le> binade r"
proof -
  have r0: "r \<noteq> 0" using assms by auto
  have "power_int (2::rat) (binade q) < power_int 2 (binade r + 1)"
    using binade_bounds(1)[OF assms(1)] binade_bounds(2)[OF r0] assms(2) by linarith
  then have "binade q < binade r + 1" by (rule pi2_less_cancel)
  then show ?thesis by simp
qed




lemma to_double_minus: "to_double (- q) = - to_double q"
  by (simp add: to_double_def rhe_minus)

lemma to_double_pos_range:
  assumes "0 < q"
  shows "power_int 2 (binade q) \<le> to_double q" "to_double q \<le> power_int 2 (binade q + 1)"
proof -
  define e where "e = binade q"
  define u :: rat where "u = power_int 2 (e - 52)"
  have q0: "q \<noteq> 0" using assms by simp
  have u: "0 < u" unfolding u_def by (rule pi2_pos)
  have td: "to_double q = of_int (round_half_even (q / u)) * u"
    using q0 by (simp add: to_double_def e_def u_def)
  have aq: "\<bar>q\<bar> = q" using assms by simp
  have lo: "power_int 2 e \<le> q" and hi: "q < power_int 2 (e + 1)"
    using binade_bounds[OF q0] aq e_def by auto
  have s1: "power_int 2 e = of_int (2 ^ 52) * u"
    unfolding u_def using power_int_diff[of "2::rat" e 52] by simp
  have s2: "power_int 2 (e + 1) = of_int (2 ^ 53) * u"
    unfolding u_def using power_int_diff[of "2::rat" "e + 1" 53] by simp
  have "of_int (2 ^ 52) \<le> q / u" using lo u unfolding s1 by (simp add: pos_le_divide_eq)
  then have "round_half_even (of_int (2 ^ 52)) \<le> round_half_even (q / u)" by (rule rhe_mono)
  then have r1: "2 ^ 52 \<le> round_half_even (q / u)" unfolding rhe_of_int .
  have "q / u \<le> of_int (2 ^ 53)" using hi u unfolding s2 by (simp add: pos_divide_le_eq)
  then have "round_half_even (q / u) \<le> round_half_even (of_int (2 ^ 53))" by (rule rhe_mono)
  then have r2: "round_half_even (q / u) \<le> 2 ^ 53" unfolding rhe_of_int .
  have "of_int (2 ^ 52) * u \<le> of_int (round_half_even (q / u)) * u"
    using r1 u by (intro mult_right_mono) (simp_all del: of_int_power of_int_numeral add: of_int_le_iff)
  then show "power_int 2 (binade q) \<le> to_double q" unfolding td s1 e_def[symmetric] .
  have "of_int (round_half_even (q / u)) * u \<le> of_int (2 ^ 53) * u"
    using r2 u by (intro mult_right_mono) (simp_all del: of_int_power of_int_numeral add: of_int_le_iff)
  then show "to_double q \<le> power_int 2 (binade q + 1)" unfolding td s2 e_def[symmetric] .
qed

lemma to_double_pos: "0 < q \<Longrightarrow> 0 < to_double q"
  using to_double_pos_range(1)[of q] pi2_pos[of "binade q"] by linarith

lemma to_double_mono_pos:
  assumes "0 < q" "q \<le> r"
  shows "to_double q \<le> to_double r"
proof -
  have r: "0 < r" using assms by simp
  have le: "binade q \<le> binade r" using assms by (intro binade_mono) auto
  show ?thesis
  proof (cases "binade q = binade r")
    case True
    define u :: rat where "u = power_int 2 (binade r - 52)"
    have u: "0 < u" unfolding u_def by (rule pi2_pos)
    have "q / u \<le> r / u" using assms u by (simp add: divide_right_mono)
    then have "round_half_even (q / u) \<le> round_half_even (r / u)" by (rule rhe_mono)
    then have "of_int (round_half_even (q / u)) * u \<le> of_int (round_half_even (r / u)) * u"
      using u by (intro mult_right_mono) simp_all
    then show ?thesis using assms r True by (simp add: to_double_def u_def)
  next
    case False
    then have "binade q + 1 \<le> binade r" using le by simp
    then have "power_int (2::rat) (binade q + 1) \<le> power_int 2 (binade r)" by (rule pi2_mono)
    then show ?thesis
      using to_double_pos_range(2)[OF assms(1)] to_double_pos_range(1)[OF r] by linarith
  qed
qed

lemma to_double_mono:
  assumes "q \<le> r"
  shows "to_double q \<le> to_double r"
proof -
  consider "0 < q" | "q \<le> 0" "0 \<le> r" | "r < 0" by linarith
  then show ?thesis
  proof cases
    case 1
    then show ?thesis using assms by (rule to_double_mono_pos)
  next
    case 2
    have a: "to_double q \<le> 0"
    proof (cases "q = 0")
      case True then show ?thesis by (simp add: to_double_def)
    next
      case False
      then have "0 < - q" using 2 by simp
      then have "0 < to_double (- q)" by (rule to_double_pos)
      then show ?thesis by (simp add: to_double_minus)
    qed
    have b: "0 \<le> to_double r"
    proof (cases "r = 0")
      case True then show ?thesis by (simp add: to_double_def)
    next
      case False
      then have "0 < r" using 2 by simp
      then show ?thesis using to_double_pos[of r] by simp
    qed
    from a b show ?thesis by linarith
  next
    case 3
    then have "0 < - r" "- r \<le> - q" using assms by simp_all
    then have "to_double (- r) \<le> to_double (- q)" by (rule to_double_mono_pos)
    then show ?thesis by (simp add: to_double_minus)
  qed
qed

lemma to_double_exact:
  assumes "\<bar>m\<bar> < 2 ^ 53"
  shows "to_double (of_int m * power_int 2 k) = of_int m * power_int 2 k"
proof (cases "m = 0")
  case True
  then show ?thesis by (simp add: to_double_def)
next
  case False
  define q :: rat where "q = of_int m * power_int 2 k"
  define e where "e = binade q"
  have q0: "q \<noteq> 0" using False pi2_pos[of k] by (auto simp: q_def)
  have aq: "\<bar>q\<bar> = of_int \<bar>m\<bar> * power_int 2 k"
    using pi2_pos[of k] by (simp add: q_def abs_mult)
  have "of_int \<bar>m\<bar> < (of_int (2 ^ 53) :: rat)" using assms by (simp only: of_int_less_iff)
  then have "\<bar>q\<bar> < of_int (2 ^ 53) * power_int 2 k"
    unfolding aq using pi2_pos[of k] by (intro mult_strict_right_mono)
  also have "\<dots> = power_int 2 (53 + k)"
    using power_int_add[of "2::rat" 53 k] by simp
  finally have "power_int 2 e < power_int (2::rat) (53 + k)"
    using binade_bounds(1)[OF q0] unfolding e_def by linarith
  then have ek: "e < 53 + k" by (rule pi2_less_cancel)
  define j where "j = k - (e - 52)"
  have j0: "0 \<le> j" using ek j_def by simp
  have pj: "power_int (2::rat) k / power_int 2 (e - 52) = power_int 2 j"
    unfolding j_def using power_int_diff[of "2::rat" k "e - 52"] by simp
  have "q / power_int 2 (e - 52) = of_int m * (power_int 2 k / power_int 2 (e - 52))"
    unfolding q_def by (rule times_divide_eq_right[symmetric])
  also have "\<dots> = of_int m * power_int 2 j" unfolding pj ..
  also have "\<dots> = of_int (m * 2 ^ nat j)" using j0 by (simp add: pi2_nat)
  finally have qu: "q / power_int 2 (e - 52) = of_int (m * 2 ^ nat j)" .
  have "to_double q = of_int (m * 2 ^ nat j) * power_int 2 (e - 52)"
    using q0 unfolding to_double_def e_def[symmetric] qu rhe_of_int by simp
  also have "\<dots> = q" using qu pi2_pos[of "e - 52"] by (simp add: field_simps)
  finally show ?thesis unfolding q_def .
qed


lemma to_double_of_int: "\<bar>m\<bar> < 2 ^ 53 \<Longrightarrow> to_double (of_int m) = of_int m"
  using to_double_exact[of m 0] by simp

lemma to_double_half_int: "\<bar>m\<bar> < 2 ^ 53 \<Longrightarrow> to_double (of_int m / 2) = of_int m / 2"
  using to_double_exact[of m "-1"] by (simp add: power_int_minus)

section \<open>Corner radius and thickness (C4)\<close>

lemma py_trunc_mono: "q \<le> r \<Longrightarrow> py_trunc q \<le> py_trunc r"
  unfolding py_trunc_def
  by (auto intro: floor_mono ceiling_mono simp: not_le)
     (meson ceiling_le_zero floor_mono le_floor_iff less_imp_le order_trans zero_le_floor of_int_0 ceiling_mono floor_le_ceiling)+

lemma size_factor_val: "size_factor = 1 / 2"
  unfolding size_factor_def using to_double_exact[of 1 "- 1"] by (simp add: power_int_minus)

lemma thickness_factor_val: "thickness_factor = 5764607523034235 / 576460752303423488"
  unfolding thickness_factor_def by code_simp

lemma tf_bounds:
  "to_double (99 * thickness_factor) < 1"
  "to_double (100 * thickness_factor) = 1"
  "to_double (199 * thickness_factor) < 2"
  "to_double (200 * thickness_factor) = 2"
  "to_double (299 * thickness_factor) < 3"
  "to_double (300 * thickness_factor) = 3"
  unfolding thickness_factor_val by code_simp+

lemma py_trunc_of_int [simp]: "py_trunc (of_int n) = n"
  by (simp add: py_trunc_def)

lemma py_trunc_less: "q < of_int n \<Longrightarrow> 0 < n \<Longrightarrow> py_trunc q < n"
  unfolding py_trunc_def by (auto simp: floor_less_iff ceiling_less_iff)

lemma py_trunc_ge: "of_int n \<le> q \<Longrightarrow> 0 \<le> n \<Longrightarrow> n \<le> py_trunc q"
  unfolding py_trunc_def by (auto simp: le_floor_iff)

lemma to_double_int_le: "\<bar>k\<bar> < 2 ^ 53 \<Longrightarrow> s \<le> k \<Longrightarrow> to_double (of_int s) \<le> of_int k"
  using to_double_mono[of "of_int s" "of_int k"] to_double_of_int[of k] by simp

lemma to_double_int_ge: "\<bar>k\<bar> < 2 ^ 53 \<Longrightarrow> k \<le> s \<Longrightarrow> of_int k \<le> to_double (of_int s)"
  using to_double_mono[of "of_int k" "of_int s"] to_double_of_int[of k] by simp

lemma radius_trunc:
  "max (min (py_trunc (fmul (to_double (of_int s)) size_factor)) max_corner_radius) min_corner_radius
   = max (min (py_trunc (of_int s / 2)) 30) 5"
proof -
  let ?f = "to_double (of_int s)"
  let ?p = "py_trunc (to_double (?f * (1 / 2)))"
  consider "s \<le> 11" | "60 \<le> s" | "11 < s" "s < 60" by linarith
  then have "max (min ?p 30) 5 = max (min (py_trunc (of_int s / 2)) 30) 5"
  proof cases
    case 1
    have "?f \<le> 11" using to_double_int_le[of 11 s] 1 by simp
    then have "?f * (1 / 2) \<le> of_int 11 / 2" by simp
    then have "to_double (?f * (1 / 2)) \<le> of_int 11 / 2"
      using to_double_mono[of "?f * (1 / 2)" "of_int 11 / 2"] to_double_half_int[of 11] by simp
    then have "to_double (?f * (1 / 2)) < of_int 6" by simp
    then have a: "?p < 6" by (rule py_trunc_less) simp
    have "(of_int s :: rat) / 2 < of_int 6" using 1 by simp
    then have b: "py_trunc (of_int s / 2) < 6" by (rule py_trunc_less) simp
    from a b show ?thesis by simp
  next
    case 2
    have "60 \<le> ?f" using to_double_int_ge[of 60 s] 2 by simp
    then have "of_int 30 \<le> ?f * (1 / 2)" by simp
    then have "of_int 30 \<le> to_double (?f * (1 / 2))"
      using to_double_mono[of "of_int 30" "?f * (1 / 2)"] to_double_of_int[of 30] by simp
    then have a: "30 \<le> ?p" by (rule py_trunc_ge) simp
    have "(of_int 30 :: rat) \<le> of_int s / 2" using 2 by simp
    then have b: "30 \<le> py_trunc (of_int s / 2)" by (rule py_trunc_ge) simp
    from a b show ?thesis by simp
  next
    case 3
    then have small: "\<bar>s\<bar> < 2 ^ 53" by simp
    have f: "?f = of_int s" using to_double_of_int[OF small] .
    have "?f * (1 / 2) = of_int s / 2" unfolding f by simp
    then have "to_double (?f * (1 / 2)) = of_int s / 2"
      using to_double_half_int[OF small] by (simp only:)
    then show ?thesis by (simp only:)
  qed
  then show ?thesis by (simp add: fmul_def size_factor_val max_corner_radius_def min_corner_radius_def)
qed

lemma fmul_tf_mono:
  assumes "a \<le> b"
  shows "to_double (a * thickness_factor) \<le> to_double (b * thickness_factor)"
proof -
  have "0 \<le> thickness_factor" by (simp add: thickness_factor_val)
  then have "a * thickness_factor \<le> b * thickness_factor" using assms by (rule mult_right_mono[rotated])
  then show ?thesis by (rule to_double_mono)
qed

lemma py_trunc_range: "of_int n \<le> q \<Longrightarrow> q < of_int n + 1 \<Longrightarrow> 0 \<le> n \<Longrightarrow> py_trunc q = n"
  unfolding py_trunc_def by (auto simp: floor_eq_iff)

lemma thickness_trunc:
  "max (min (py_trunc (fmul (to_double (of_int s)) thickness_factor) * 2) max_thickness) min_thickness
   = max (min (py_trunc (of_int s / 100) * 2) 5) 1"
proof -
  let ?f = "to_double (of_int s)"
  let ?q = "to_double (?f * thickness_factor)"
  consider "s \<le> 99" | "100 \<le> s" "s \<le> 199" | "200 \<le> s" "s \<le> 299" | "300 \<le> s" by linarith
  then have "max (min (py_trunc ?q * 2) 5) 1 = max (min (py_trunc (of_int s / 100) * 2) 5) 1"
  proof cases
    case 1
    have "?f \<le> 99" using to_double_int_le[of 99 s] 1 by simp
    then have "?q < of_int 1" using fmul_tf_mono[of ?f 99] tf_bounds(1) by simp
    then have a: "py_trunc ?q < 1" by (rule py_trunc_less) simp
    have "(of_int s :: rat) / 100 < of_int 1" using 1 by simp
    then have b: "py_trunc (of_int s / 100) < 1" by (rule py_trunc_less) simp
    from a b show ?thesis by simp
  next
    case 2
    have lo: "100 \<le> ?f" using to_double_int_ge[of 100 s] 2 by simp
    have hi: "?f \<le> 199" using to_double_int_le[of 199 s] 2 by simp
    have "1 \<le> ?q" using fmul_tf_mono[OF lo] tf_bounds(2) by simp
    moreover have "?q < 2" using fmul_tf_mono[OF hi] tf_bounds(3) by simp
    ultimately have a: "py_trunc ?q = 1" using py_trunc_range[of 1 ?q] by simp
    have "(1::rat) \<le> of_int s / 100" "(of_int s :: rat) / 100 < 2" using 2 by simp_all
    then have b: "py_trunc (of_int s / 100) = 1" using py_trunc_range[of 1 "of_int s / 100"] by simp
    from a b show ?thesis by simp
  next
    case 3
    have lo: "200 \<le> ?f" using to_double_int_ge[of 200 s] 3 by simp
    have hi: "?f \<le> 299" using to_double_int_le[of 299 s] 3 by simp
    have "2 \<le> ?q" using fmul_tf_mono[OF lo] tf_bounds(4) by simp
    moreover have "?q < 3" using fmul_tf_mono[OF hi] tf_bounds(5) by simp
    ultimately have a: "py_trunc ?q = 2" using py_trunc_range[of 2 ?q] by simp
    have "(2::rat) \<le> of_int s / 100" "(of_int s :: rat) / 100 < 3" using 3 by simp_all
    then have b: "py_trunc (of_int s / 100) = 2" using py_trunc_range[of 2 "of_int s / 100"] by simp
    from a b show ?thesis by simp
  next
    case 4
    have lo: "300 \<le> ?f" using to_double_int_ge[of 300 s] 4 by simp
    have "of_int 3 \<le> ?q" using fmul_tf_mono[OF lo] tf_bounds(6) by simp
    then have a: "3 \<le> py_trunc ?q" by (rule py_trunc_ge) simp
    have "(of_int 3 :: rat) \<le> of_int s / 100" using 4 by simp
    then have b: "3 \<le> py_trunc (of_int s / 100)" by (rule py_trunc_ge) simp
    from a b show ?thesis by simp
  qed
  then show ?thesis by (simp add: fmul_def max_thickness_def min_thickness_def)
qed

lemma float_of_int_small: "\<bar>k\<bar> < 2 ^ 53 \<Longrightarrow> float_of_int k = Inr (of_int k)"
  using to_double_of_int[of k] by (simp add: float_of_int_def)

lemma corner_radius_eq:
  "corner_radius s = ebind (float_of_int s) (\<lambda>_. Inr (max (min (py_trunc (of_int s / 2)) 30) 5))"
  unfolding corner_radius_def float_of_int_def ebind_def by (simp add: radius_trunc)

lemma corner_thickness_eq:
  "corner_thickness s = ebind (float_of_int s) (\<lambda>_. Inr (max (min (py_trunc (of_int s / 100) * 2) 5) 1))"
  unfolding corner_thickness_def float_of_int_def ebind_def by (simp add: thickness_trunc)

lemma sbind_lift: "sbind (lift m) f st = (case m of Inl e \<Rightarrow> (Inl e, st) | Inr x \<Rightarrow> f x st)"
  by (simp add: sbind_def lift_def split: sum.splits)

text \<open>
  C4 (amended). For every detection whose coordinates \<open>x1, y1, x2, y2\<close> are present and
  are cast to integers by \<open>int\<close> (a float is truncated toward zero), with \<open>size =
  min(int(x2) - int(x1), int(y2) - int(y1))\<close> not too large to be converted to a float,
  \<open>annotate_bbox_corners\<close> draws the four corner arcs with the radius
  \<open>clamp(int(size * 0.5), [5, 30])\<close> and the thickness \<open>clamp(int(size * 0.01) * 2,
  [1, 5])\<close>, where \<open>int\<close> truncates toward zero (it does not round): the float products
  agree with the exact quotients \<open>size / 2\<close> and \<open>size / 100\<close> after truncation. For the
  box (100,100)-(200,200) the radius is 30 and the thickness is 2.
\<close>

theorem corner_style_truncates:
  assumes "x1 d = Some vx1" "y1 d = Some vy1" "x2 d = Some vx2" "y2 d = Some vy2"
    and "py_int be vx1 = Inr bx1" "py_int be vy1 = Inr by1"
    and "py_int be vx2 = Inr bx2" "py_int be vy2 = Inr by2"
    and "float_of_int (min (bx2 - bx1) (by2 - by1)) = Inr f"
    and "r = max (min (py_trunc (of_int (min (bx2 - bx1) (by2 - by1)) / 2)) 30) 5"
    and "t = max (min (py_trunc (of_int (min (bx2 - bx1) (by2 - by1)) / 100) * 2) 5) 1"
  shows "annotate_bbox_corners be fr d =
           sbind (draw_each fr
                    (map (\<lambda>(c, start_angle, end_angle) img.
                            ellipse be img c (r, r) 0 start_angle end_angle (fetch_bbox_colour d) t)
                         (bbox_corners bx1 by1 bx2 by2 r))) (\<lambda>_. sreturn fr)
         \<and> corner_radius (detection_size bx1 by1 bx2 by2) = Inr r
         \<and> corner_thickness (detection_size bx1 by1 bx2 by2) = Inr t
         \<and> corner_radius (detection_size 100 100 200 200) = Inr 30
         \<and> corner_thickness (detection_size 100 100 200 200) = Inr 2"
proof -
  have rr: "corner_radius (detection_size bx1 by1 bx2 by2) = Inr r"
    unfolding corner_radius_eq detection_size_def assms(9) assms(10) by (simp add: ebind_def)
  have tt: "corner_thickness (detection_size bx1 by1 bx2 by2) = Inr t"
    unfolding corner_thickness_eq detection_size_def assms(9) assms(11) by (simp add: ebind_def)
  have small: "float_of_int 100 = Inr 100" using float_of_int_small[of 100] by simp
  have r100: "corner_radius 100 = Inr 30"
    unfolding corner_radius_eq small by (simp add: ebind_def py_trunc_def)
  have t100: "corner_thickness 100 = Inr 2"
    unfolding corner_thickness_eq small by (simp add: ebind_def py_trunc_def)
  have "annotate_bbox_corners be fr d =
           sbind (draw_each fr
                    (map (\<lambda>(c, start_angle, end_angle) img.
                            ellipse be img c (r, r) 0 start_angle end_angle (fetch_bbox_colour d) t)
                         (bbox_corners bx1 by1 bx2 by2 r))) (\<lambda>_. sreturn fr)"
    unfolding annotate_bbox_corners_def
    by (rule ext) (simp add: sbind_lift assms(1-8) dkey_def ebind_def rr tt)
  then show ?thesis using rr tt r100 t100 by (simp add: detection_size_def)
qed

theorem corner_style_truncates_witness:
  "annotate_bbox_corners (fake_canvas (10, 10)) 0
     (example_detection\<lparr>x1 := Some (PInt 100), y1 := Some (PInt 100),
                          x2 := Some (PInt 200), y2 := Some (PInt 200)\<rparr>)
   = sbind (draw_each 0
              (map (\<lambda>(c, start_angle, end_angle) img.
                      ellipse (fake_canvas (10, 10)) img c (30, 30) 0 start_angle end_angle
                        bbox_colours_offender 2)
                   (bbox_corners 100 100 200 200 30))) (\<lambda>_. sreturn 0)
   \<and> annotate_bbox_corners (fake_canvas (10, 10)) 0
     (example_detection\<lparr>x1 := Some (PFloat (3 / 4)), y1 := Some (PInt 0),
                          x2 := Some (PFloat (49 / 4)), y2 := Some (PInt 400)\<rparr>)
   = sbind (draw_each 0
              (map (\<lambda>(c, start_angle, end_angle) img.
                      ellipse (fake_canvas (10, 10)) img c (6, 6) 0 start_angle end_angle
                        bbox_colours_offender 1)
                   (bbox_corners 0 0 12 400 6))) (\<lambda>_. sreturn 0)"
proof -
  let ?be = "fake_canvas (10, 10)"
  let ?d1 = "example_detection\<lparr>x1 := Some (PInt 100), y1 := Some (PInt 100),
                          x2 := Some (PInt 200), y2 := Some (PInt 200)\<rparr>"
  let ?d2 = "example_detection\<lparr>x1 := Some (PFloat (3 / 4)), y1 := Some (PInt 0),
                          x2 := Some (PFloat (49 / 4)), y2 := Some (PInt 400)\<rparr>"
  have col: "fetch_bbox_colour ?d1 = bbox_colours_offender" "fetch_bbox_colour ?d2 = bbox_colours_offender"
    by (simp_all add: fetch_bbox_colour_def example_detection_def)
  have f100: "float_of_int (min (200 - 100) (200 - 100)) = Inr 100"
    using float_of_int_small[of 100] by simp
  have f12: "float_of_int (min (12 - 0) (400 - 0)) = Inr 12"
    using float_of_int_small[of 12] by simp
  have tr: "py_trunc (3 / 4) = 0" "py_trunc (49 / 4) = 12" "py_trunc (3 / 25) = 0" "py_trunc 6 = 6"
    by (simp_all add: py_trunc_def floor_eq_iff)
  have a: "annotate_bbox_corners ?be 0 ?d1
     = sbind (draw_each 0
              (map (\<lambda>(c, start_angle, end_angle) img.
                      ellipse ?be img c (30, 30) 0 start_angle end_angle (fetch_bbox_colour ?d1) 2)
                   (bbox_corners 100 100 200 200 30))) (\<lambda>_. sreturn 0)"
    using corner_style_truncates[where d = ?d1 and be = ?be and fr = 0
        and ?vx1.0 = "PInt 100" and ?vy1.0 = "PInt 100" and ?vx2.0 = "PInt 200" and ?vy2.0 = "PInt 200"
        and ?bx1.0 = 100 and ?by1.0 = 100 and ?bx2.0 = 200 and ?by2.0 = 200
        and f = 100 and r = 30 and t = 2, OF _ _ _ _ _ _ _ _ f100]
    by (simp add: py_trunc_def)
  have b: "annotate_bbox_corners ?be 0 ?d2
     = sbind (draw_each 0
              (map (\<lambda>(c, start_angle, end_angle) img.
                      ellipse ?be img c (6, 6) 0 start_angle end_angle (fetch_bbox_colour ?d2) 1)
                   (bbox_corners 0 0 12 400 6))) (\<lambda>_. sreturn 0)"
    using corner_style_truncates[where d = ?d2 and be = ?be and fr = 0
        and ?vx1.0 = "PFloat (3 / 4)" and ?vy1.0 = "PInt 0" and ?vx2.0 = "PFloat (49 / 4)" and ?vy2.0 = "PInt 400"
        and ?bx1.0 = 0 and ?by1.0 = 0 and ?bx2.0 = 12 and ?by2.0 = 400
        and f = 12 and r = 6 and t = 1, OF _ _ _ _ _ _ _ _ f12]
    by (simp add: tr)
  show ?thesis using a b unfolding col by simp
qed

text \<open>
  C4, as stated, fails. For the box (0,0)-(60,60) the size is 60, \<open>round(60 * 0.01) = 1\<close>
  and the stated thickness is \<open>clamp(1 * 2, [1, 5]) = 2\<close>, while the code computes
  \<open>int(0.6) * 2 = 0\<close> and draws with the thickness 1. For the box (0,0)-(11,11) the size
  is 11 and the stated radius is \<open>clamp(5.5, [5, 30]) = 5.5\<close>, while the code computes
  \<open>int(5.5) = 5\<close>.
\<close>

theorem thickness_rounding_counterexample:
  "corner_thickness (detection_size 0 0 60 60) = Inr 1 \<and> spec_thickness (detection_size 0 0 60 60) = 2
   \<and> corner_radius (detection_size 0 0 11 11) = Inr 5 \<and> spec_radius (detection_size 0 0 11 11) = 11 / 2"
proof -
  have small: "float_of_int 60 = Inr 60" using float_of_int_small[of 60] by simp
  have small11: "float_of_int 11 = Inr 11" using float_of_int_small[of 11] by simp
  have z: "py_trunc (3 / 5) = 0" by (simp add: py_trunc_def floor_eq_iff)
  have h: "py_trunc (11 / 2) = 5" by (simp add: py_trunc_def floor_eq_iff)
  have "corner_thickness 60 = Inr 1"
    unfolding corner_thickness_eq small by (simp add: ebind_def z)
  moreover have "\<lfloor>11 / 10 :: rat\<rfloor> = 1" by (simp add: floor_eq_iff)
  then have "spec_thickness 60 = 2"
    by (simp add: spec_thickness_def max_thickness_def min_thickness_def round_def)
  moreover have "corner_radius 11 = Inr 5"
    unfolding corner_radius_eq small11 by (simp add: ebind_def h)
  moreover have "spec_radius 11 = 11 / 2"
    by (simp add: spec_radius_def max_corner_radius_def min_corner_radius_def)
  ultimately show ?thesis by (simp add: detection_size_def)
qed

section \<open>The shrink-to-fit loop (C6, C7)\<close>

lemma font_scale_step_val: "font_scale_step = 3602879701896397 / 36028797018963968"
  unfolding font_scale_step_def by code_simp

lemma scale_seq_step:
  "m = Suc n \<Longrightarrow> scale_seq n = a \<Longrightarrow> to_double (a - 3602879701896397 / 36028797018963968) = b \<Longrightarrow> scale_seq m = b"
  by (simp add: fsub_def font_scale_step_val)

lemma scale_seq_vals:
  "scale_seq 0 = 2"
  "scale_seq 1 = 4278419646001971 / 2251799813685248"
  "scale_seq 2 = 2026619832316723 / 1125899906842624"
  "scale_seq 3 = 3828059683264921 / 2251799813685248"
  "scale_seq 4 = 900719925474099 / 562949953421312"
  "scale_seq 5 = 3377699720527871 / 2251799813685248"
  "scale_seq 6 = 1576259869579673 / 1125899906842624"
  "scale_seq 7 = 2927339757790821 / 2251799813685248"
  "scale_seq 8 = 337769972052787 / 281474976710656"
  "scale_seq 9 = 2476979795053771 / 2251799813685248"
  "scale_seq 10 = 9007199254740985 / 9007199254740992"
  "scale_seq 11 = 4053239664633443 / 4503599627370496"
  "scale_seq 12 = 7205759403792787 / 9007199254740992"
proof -
  show s0: "scale_seq 0 = 2" by (simp add: font_scale_def)
  show s1: "scale_seq 1 = 4278419646001971 / 2251799813685248"
    by (rule scale_seq_step[OF _ s0]) (simp, code_simp)
  show s2: "scale_seq 2 = 2026619832316723 / 1125899906842624"
    by (rule scale_seq_step[OF _ s1]) (simp, code_simp)
  show s3: "scale_seq 3 = 3828059683264921 / 2251799813685248"
    by (rule scale_seq_step[OF _ s2]) (simp, code_simp)
  show s4: "scale_seq 4 = 900719925474099 / 562949953421312"
    by (rule scale_seq_step[OF _ s3]) (simp, code_simp)
  show s5: "scale_seq 5 = 3377699720527871 / 2251799813685248"
    by (rule scale_seq_step[OF _ s4]) (simp, code_simp)
  show s6: "scale_seq 6 = 1576259869579673 / 1125899906842624"
    by (rule scale_seq_step[OF _ s5]) (simp, code_simp)
  show s7: "scale_seq 7 = 2927339757790821 / 2251799813685248"
    by (rule scale_seq_step[OF _ s6]) (simp, code_simp)
  show s8: "scale_seq 8 = 337769972052787 / 281474976710656"
    by (rule scale_seq_step[OF _ s7]) (simp, code_simp)
  show s9: "scale_seq 9 = 2476979795053771 / 2251799813685248"
    by (rule scale_seq_step[OF _ s8]) (simp, code_simp)
  show s10: "scale_seq 10 = 9007199254740985 / 9007199254740992"
    by (rule scale_seq_step[OF _ s9]) (simp, code_simp)
  show s11: "scale_seq 11 = 4053239664633443 / 4503599627370496"
    by (rule scale_seq_step[OF _ s10]) (simp, code_simp)
  show s12: "scale_seq 12 = 7205759403792787 / 9007199254740992"
    by (rule scale_seq_step[OF _ s11]) (simp, code_simp)
qed

lemma scale_seq_12: "scale_seq 12 = 7205759403792787 / 9007199254740992"
  by (rule scale_seq_vals)

lemma min_font_scale_val: "min_font_scale = 3602879701896397 / 4503599627370496"
  unfolding min_font_scale_def by code_simp

lemma scale_seq_12_low: "\<not> scale_seq 12 > min_font_scale"
  unfolding scale_seq_12 min_font_scale_val by simp

lemma steps_bound:
  "n \<le> 12 \<Longrightarrow>
     \<exists>r k. shrink_to_fit_steps be label mw sz (scale_seq n) c = Some (r, k) \<and> k \<le> c + (12 - n)
           \<and> shrink_to_fit be label mw sz (scale_seq n) = Some r"
proof (induction "12 - n" arbitrary: n sz c)
  case 0
  then have n: "n = 12" by simp
  show ?case unfolding n
    by (subst shrink_to_fit_steps.simps, subst shrink_to_fit.simps) (simp add: scale_seq_12_low)
next
  case (Suc m)
  then have n: "n < 12" and m: "m = 12 - Suc n" and le: "Suc n \<le> 12" by simp_all
  show ?case
  proof (cases "fst sz > mw \<and> scale_seq n > min_font_scale")
    case True
    obtain r k where
      rk: "shrink_to_fit_steps be label mw
             (getTextSize be label font (scale_seq (Suc n)) font_thickness) (scale_seq (Suc n)) (Suc c) = Some (r, k)"
          "k \<le> Suc c + (12 - Suc n)"
          "shrink_to_fit be label mw
             (getTextSize be label font (scale_seq (Suc n)) font_thickness) (scale_seq (Suc n)) = Some r"
      using Suc.hyps(1)[OF m le] by blast
    have a: "shrink_to_fit_steps be label mw sz (scale_seq n) c = Some (r, k)"
      by (subst shrink_to_fit_steps.simps) (use True rk(1) in simp)
    have b: "shrink_to_fit be label mw sz (scale_seq n) = Some r"
      by (subst shrink_to_fit.simps) (use True rk(3) in simp)
    show ?thesis using a b rk(2) n by auto
  next
    case False
    have a: "shrink_to_fit_steps be label mw sz (scale_seq n) c = Some ((sz, scale_seq n), c)"
      by (subst shrink_to_fit_steps.simps) (use False in auto)
    have b: "shrink_to_fit be label mw sz (scale_seq n) = Some (sz, scale_seq n)"
      by (subst shrink_to_fit.simps) (use False in auto)
    show ?thesis using a b by simp
  qed
qed


lemma scale_seq_high: "n < 12 \<Longrightarrow> scale_seq n > min_font_scale"
proof -
  assume "n < 12"
  then have "n = 11 \<or> n = 10 \<or> n = 9 \<or> n = 8 \<or> n = 7 \<or> n = 6 \<or> n = 5
      \<or> n = 4 \<or> n = 3 \<or> n = 2 \<or> n = 1 \<or> n = 0" by presburger
  then show ?thesis
    by (elim disjE; hypsubst; simp only: scale_seq_vals min_font_scale_val; simp)
qed

lemma never_fits:
  assumes "\<And>s. fst (getTextSize be label font s font_thickness) > mw" "fst sz > mw" "n \<le> 12"
  shows "shrink_to_fit be label mw sz (scale_seq n) =
           Some (if n = 12 then sz else getTextSize be label font (scale_seq 12) font_thickness, scale_seq 12)"
  using assms(2,3)
proof (induction "12 - n" arbitrary: n sz)
  case 0
  then have n: "n = 12" by simp
  show ?case unfolding n by (subst shrink_to_fit.simps) (simp add: scale_seq_12_low)
next
  case (Suc m)
  then have n: "n < 12" and m: "m = 12 - Suc n" and le: "Suc n \<le> 12" by simp_all
  have r: "shrink_to_fit be label mw
      (getTextSize be label font (scale_seq (Suc n)) font_thickness) (scale_seq (Suc n))
      = Some (getTextSize be label font (scale_seq 12) font_thickness, scale_seq 12)"
    using Suc.hyps(1)[OF m assms(1) le] by (cases "Suc n = 12") simp_all
  show ?case
    by (subst shrink_to_fit.simps) (use Suc.prems(1) scale_seq_high[OF n] r n in simp)
qed

text \<open>
  C7. For every label, every maximum width and every text-measurement backend, the
  shrink-to-fit loop of \<open>fetch_text_properties\<close>, started at the baseline font scale,
  returns, after at most 12 iterations (\<open>(2 - 0.8) / 0.1\<close>): the counting loop returns a
  count of at most 12 together with the result of the loop itself.
\<close>

theorem shrink_to_fit_bounded:
  "\<exists>r k. shrink_to_fit_steps be label max_text_width
             (getTextSize be label font font_scale font_thickness) font_scale 0 = Some (r, k)
         \<and> k \<le> 12
         \<and> shrink_to_fit be label max_text_width
             (getTextSize be label font font_scale font_thickness) font_scale = Some r"
  using steps_bound[of 0 be label max_text_width "getTextSize be label font font_scale font_thickness" 0]
  by simp

text \<open>
  C6, at a failing input: a label whose measured width (1000) exceeds the maximum text
  width (50, on a frame 100 pixels wide) at every scale. \<open>fetch_text_properties\<close> returns
  the font scale 7205759403792787 / 9007199254740992 (0.7999999999999993), which is below
  \<open>min_font_scale\<close> (the float 0.8) and below 0.8: twelve float subtractions of 0.1 from 2
  end under the threshold they are compared with.
\<close>

theorem font_scale_below_minimum:
  "fetch_text_properties (fake_canvas (1000, 20)) ''ID: 1'' 0 [[replicate 100 (0, 0, 0)]]
     = (Inr ((1000, 20), 7205759403792787 / 9007199254740992), [[replicate 100 (0, 0, 0)]])
   \<and> (7205759403792787 / 9007199254740992 :: rat) < min_font_scale
   \<and> (7205759403792787 / 9007199254740992 :: rat) < 8 / 10"
proof -
  let ?be = "fake_canvas (1000, 20)"
  have g: "getTextSize ?be l f s t = (1000, 20)" for l f s t by (simp add: fake_canvas_def)
  have a: "shrink_to_fit ?be ''ID: 1'' 50 (1000, 20) (scale_seq 0) = Some ((1000, 20), scale_seq 12)"
    using never_fits[where be = ?be and label = "''ID: 1''" and mw = 50 and sz = "(1000, 20)" and n = 0]
    by (simp add: g)
  have w: "img_width [replicate 100 (0, 0, 0)] = 100" by (simp add: img_width_def)
  have "fetch_text_properties ?be ''ID: 1'' 0 [[replicate 100 (0, 0, 0)]]
          = (Inr ((1000, 20), scale_seq 12), [[replicate 100 (0, 0, 0)]])"
    using a by (simp add: fetch_text_properties_def sbind_def read_frame_def lift_def w g label_padding_def)
  moreover have "(7205759403792787 / 9007199254740992 :: rat) < min_font_scale"
    unfolding min_font_scale_val by simp
  ultimately show ?thesis by (simp add: scale_seq_vals)
qed


section \<open>Labels (C2, C3)\<close>

lemma show_nat_digit: "n < 10 \<Longrightarrow> show_nat n = [digit_char n]"
  by (subst show_nat.simps) simp

lemma fixed2_half: "fixed2 (1 / 2) = ''0.50''"
  by (simp add: fixed2_def round_half_even_def show_nat_digit digit_char_def)

text \<open>
  C2, at a failing input: for the detection with ID 7, class \<open>car\<close> and confidence 0.5 and
  the unrecognized vision type \<open>lane_detection\<close>, \<open>create_label\<close> returns the literal
  string \<open>object_detection\<close> (the default passed to \<open>dict.get\<close>), not the label of the
  \<open>object_detection\<close> template, which is \<open>ID: 7 | Class: car | Confidence Score: 0.50\<close>.
\<close>

theorem unrecognized_vision_type_label:
  "create_label be example_detection ''lane_detection'' PNone = Inr ''object_detection''
   \<and> object_detection_label be example_detection = Inr ''ID: 7 | Class: car | Confidence Score: 0.50''"
  by (simp add: create_label_def object_detection_label_def detection_labels_def
        example_detection_def ebind_def dget_def plate_text_def fixed2_half show_int_def show_nat_digit
        digit_char_def)

text \<open>
  C3, at the failing inputs: for every detection without a confidence score, every vision
  type and every timestamp, \<open>create_label\<close> raises TypeError, since the
  \<open>object_detection\<close> f-string formats \<open>None\<close> with \<open>.2f\<close> whatever the vision type.
\<close>

theorem missing_confidence_raises:
  "create_label be (d\<lparr>confidence_score := None\<rparr>) vision_type captured_at = Inl TypeError"
  by (simp add: create_label_def detection_labels_def ebind_def dget_def)

section \<open>Label position (C8)\<close>

text \<open>
  C8, at a failing input: for the bbox bottom 200, the center point (150, 150) and the
  text size (100, 20), \<open>calculate_label_position\<close> returns the box with x = 100, y = 245,
  width = 150 and height = 70. Its top, width and height are as stated, but the box spans
  100 to 250: it is centered on 175, \<open>label_padding\<close> to the right of the center x 150.
\<close>

theorem label_box_off_center:
  "calculate_label_position 200 (NInt 150, NInt 150) (100, 20)
     = Inr \<lparr>pos_x = 100, pos_y = 245, pos_width = 150, pos_height = 70\<rparr>
   \<and> \<not> horizontally_centered \<lparr>pos_x = 100, pos_y = 245, pos_width = 150, pos_height = 70\<rparr> 150
   \<and> horizontally_centered \<lparr>pos_x = 100, pos_y = 245, pos_width = 150, pos_height = 70\<rparr> 175"
  by (simp add: calculate_label_position_def ebind_def label_padding_def horizontally_centered_def)

section \<open>Frames left as they are (C9, C10)\<close>

text \<open>
  C9. For every frame and every list of fewer than 2 center points,
  \<open>annotate_center_point_trail\<close> returns the frame it was given and leaves every array of
  the store as it was: nothing is drawn.
\<close>

theorem short_trail_unchanged:
  "length center_pts < 2 \<Longrightarrow> annotate_center_point_trail be fr center_pts st = (Inr fr, st)"
  by (simp add: annotate_center_point_trail_def sreturn_def)

theorem short_trail_unchanged_witness:
  "length [(5, 5) :: int \<times> int] < 2
   \<and> annotate_center_point_trail (fake_canvas (10, 10)) 0 [(5, 5)] [[[(0, 0, 0)]]] = (Inr 0, [[[(0, 0, 0)]]])"
  using short_trail_unchanged[of "[(5, 5)]" "fake_canvas (10, 10)" 0 "[[[(0, 0, 0)]]]"] by simp

text \<open>
  C10. For every frame and every vision type, \<open>annotate_frame\<close> with an empty list of
  detections returns the frame it was given (the same reference) and leaves every array
  of the store as it was.
\<close>

theorem annotate_frame_no_detections:
  "annotate_frame be fr [] vision_type st = (Inr fr, st)"
  by (simp add: sreturn_def)


section \<open>The evidence frame is a private copy (C5)\<close>

lemma confined_return: "P x \<Longrightarrow> confined n P (sreturn x)"
  by (simp add: confined_def sreturn_def)

lemma confined_lift: "confined n (\<lambda>_. True) (lift m)"
  by (simp add: confined_def lift_def split: sum.splits)

lemma confined_read: "confined n (\<lambda>_. True) (read_frame r)"
  by (simp add: confined_def read_frame_def split: sum.splits)

lemma confined_weaken: "confined n P m \<Longrightarrow> (\<And>x. P x \<Longrightarrow> Q x) \<Longrightarrow> confined n Q m"
  unfolding confined_def by (auto split: sum.splits)

lemma confined_bind:
  assumes "confined n Q m" and "\<And>x. Q x \<Longrightarrow> confined n P (f x)"
  shows "confined n P (sbind m f)"
  unfolding confined_def
proof (intro allI impI)
  fix st :: store
  assume n: "n \<le> length st"
  obtain res st1 where m: "m st = (res, st1)" by (cases "m st")
  from assms(1) n m have l1: "length st1 = length st" and t1: "take n st1 = take n st"
    and q: "case res of Inl e \<Rightarrow> True | Inr x \<Rightarrow> Q x"
    unfolding confined_def by (metis fst_conv snd_conv)+
  show "length (snd (sbind m f st)) = length st \<and> take n (snd (sbind m f st)) = take n st \<and>
        (case fst (sbind m f st) of Inl e \<Rightarrow> True | Inr x \<Rightarrow> P x)"
  proof (cases res)
    case (Inl e)
    then show ?thesis using m l1 t1 by (simp add: sbind_def)
  next
    case (Inr x)
    then have "Q x" using q by simp
    then have c: "confined n P (f x)" by (rule assms(2))
    have n1: "n \<le> length st1" using n l1 by simp
    from c n1 have "length (snd (f x st1)) = length st1 \<and> take n (snd (f x st1)) = take n st1 \<and>
        (case fst (f x st1) of Inl e \<Rightarrow> True | Inr y \<Rightarrow> P y)"
      unfolding confined_def by blast
    then show ?thesis using m Inr l1 t1 by (simp add: sbind_def)
  qed
qed

lemma confined_bind_any:
  "confined n Q m \<Longrightarrow> (\<And>x. confined n P (f x)) \<Longrightarrow> confined n P (sbind m f)"
  by (rule confined_bind)

lemma confined_draw: "n \<le> r \<Longrightarrow> confined n (\<lambda>_. True) (draw r f)"
  by (simp add: confined_def draw_def sbind_def read_frame_def)

lemma confined_draw_each: "n \<le> r \<Longrightarrow> confined n (\<lambda>_. True) (draw_each r fs)"
proof (induction fs)
  case Nil
  then show ?case by (simp add: confined_return)
next
  case (Cons f fs)
  then show ?case by (auto intro!: confined_bind_any confined_draw)
qed

lemma confined_annotate_bbox_corners:
  "n \<le> r \<Longrightarrow> confined n (\<lambda>x. x = r) (annotate_bbox_corners be r d)"
  unfolding annotate_bbox_corners_def
  by (intro confined_bind_any[OF confined_lift] confined_bind_any[OF confined_draw_each]
        confined_return) simp_all

lemma confined_fetch_text_properties:
  "confined n (\<lambda>_. True) (fetch_text_properties be label r)"
  unfolding fetch_text_properties_def
  by (intro confined_bind_any[OF confined_read] confined_lift)

lemma confined_paste_overlay:
  "n \<le> r \<Longrightarrow> confined n (\<lambda>_. True) (paste_overlay r h w ox oy ow oh up)"
  unfolding paste_overlay_def
  by (auto intro!: confined_bind_any[OF confined_read] confined_bind_any[OF confined_lift]
        confined_draw confined_return)

lemma confined_render_license_plate:
  "n \<le> r \<Longrightarrow> confined n (\<lambda>_. True) (render_license_plate be r plate ox oy ow oh)"
  unfolding render_license_plate_def
  by (auto intro!: confined_bind_any[OF confined_read] confined_bind_any[OF confined_lift]
        confined_bind_any[OF confined_draw] confined_bind_any[OF confined_fetch_text_properties]
        confined_draw)

lemma confined_append_capture_metadata:
  "n \<le> r \<Longrightarrow> confined n (\<lambda>_. True) (append_capture_metadata be r d t h w)"
  unfolding append_capture_metadata_def
  by (auto intro!: confined_bind_any[OF confined_lift]
        confined_bind_any[OF confined_draw] confined_bind_any[OF confined_fetch_text_properties]
        confined_draw)

lemma confinedD:
  assumes "m st = (res, st')" "confined n P m" "n \<le> length st"
  shows "length st' = length st \<and> take n st' = take n st \<and> (\<forall>x. res = Inr x \<longrightarrow> P x)"
proof -
  from assms(2,3) have "length (snd (m st)) = length st \<and> take n (snd (m st)) = take n st \<and>
        (case fst (m st) of Inl e \<Rightarrow> True | Inr x \<Rightarrow> P x)"
    unfolding confined_def by blast
  then show ?thesis using assms(1) by auto
qed

lemma sbind_copy: "fr < length st \<Longrightarrow> sbind (copy fr) f st = f (length st) (st @ [st ! fr])"
  by (simp add: sbind_def copy_def read_frame_def)

lemma sbind_liftE:
  assumes "sbind (lift m) f st = (res, st')"
  obtains e where "m = Inl e" "res = Inl e" "st' = st"
        | x where "m = Inr x" "f x st = (res, st')"
  using assms by (cases m) (auto simp: sbind_lift)

lemma crop_and_upscale_effect:
  "fr < length st \<Longrightarrow> crop_and_upscale be fr d st = (res, st') \<Longrightarrow>
     (st' = st \<and> (\<forall>x. res \<noteq> Inr x)) \<or>
     (length st' = Suc (length st) \<and> take (length st) st' = st \<and>
      (\<forall>x. res = Inr x \<longrightarrow> fst x = length st))"
  unfolding crop_and_upscale_def
  apply (elim sbind_liftE)
      apply (simp_all add: sbind_copy)
  apply (rule disjI2)
  apply (drule confinedD[where n = "length st" and P = "\<lambda>x. fst x = length st"])
    apply (rule confined_bind[OF confined_annotate_bbox_corners])
     apply simp
    apply (intro confined_bind_any[OF confined_read] confined_bind_any[OF confined_lift] confined_return)
    apply simp
   apply simp
  apply simp
  done

lemma sbindE:
  assumes "sbind m f st = (res, st')"
  obtains e where "m st = (Inl e, st')" "res = Inl e"
        | x st1 where "m st = (Inr x, st1)" "f x st1 = (res, st')"
proof (cases "m st")
  case (Pair r st1)
  show ?thesis
  proof (cases r)
    case (Inl e)
    then show ?thesis using assms Pair that(1) by (simp add: sbind_def)
  next
    case (Inr x)
    then show ?thesis using assms Pair that(2) by (simp add: sbind_def)
  qed
qed

lemma confined_compose_evidence:
  "n \<le> af \<Longrightarrow>
   confined n (\<lambda>r. r = af)
     (sbind (paste_overlay af h w ox oy ow oh up) (\<lambda>_.
      sbind (render_license_plate be af plate ox oy ow oh) (\<lambda>_.
      sbind (append_capture_metadata be af d t h w) (\<lambda>_.
      sreturn af))))"
  by (intro confined_bind_any[OF confined_paste_overlay]
        confined_bind_any[OF confined_render_license_plate]
        confined_bind_any[OF confined_append_capture_metadata] confined_return) simp_all

text \<open>
  C5. For every backend, detection and timestamp, and every frame of the store,
  \<open>capture_traffic_violation\<close> leaves every array that existed before the call, the
  caller's frame among them, as it was, whether it returns or raises; and the frame it
  returns is a new array, appended to the store: the copy on which everything was drawn.
\<close>

theorem capture_leaves_input_unmodified:
  assumes "fr < length st"
    and "capture_traffic_violation be fr d captured_at st = (res, st')"
  shows "take (length st) st' = st \<and> st' ! fr = st ! fr \<and>
         (\<forall>r. res = Inr r \<longrightarrow> r = length st \<and> length st' = Suc (length st))"
proof -
  have main: "take (length st) st' = st \<and>
         (\<forall>r. res = Inr r \<longrightarrow> r = length st \<and> length st' = Suc (length st))"
    using assms(2) unfolding capture_traffic_violation_def
  proof (elim sbind_liftE sbindE, goal_cases)
    case (1 e)
    then show ?case by simp
  next
    case (2 plate e)
    then show ?case using crop_and_upscale_effect[OF assms(1) 2(2)] by auto
  next
    case (3 plate x st1)
    obtain af h w oh up where x: "x = (af, h, w, oh, up)" by (cases x)
    from crop_and_upscale_effect[OF assms(1) 3(2)] x
    have l1: "length st1 = Suc (length st)" and t1: "take (length st) st1 = st"
      and af: "af = length st" by auto
    have rest: "sbind (paste_overlay af h w (w - w div 4 - padding) padding (w div 4) oh up) (\<lambda>_.
      sbind (render_license_plate be af plate (w - w div 4 - padding) padding (w div 4) oh) (\<lambda>_.
      sbind (append_capture_metadata be af d captured_at h w) (\<lambda>_.
      sreturn af))) st1 = (res, st')"
      using 3(3) x by simp
    have "length st' = length st1 \<and> take (length st) st' = take (length st) st1 \<and>
          (\<forall>r. res = Inr r \<longrightarrow> r = af)"
      by (rule confinedD[OF rest confined_compose_evidence]) (simp_all add: af l1)
    then show ?case using l1 t1 af by simp
  qed
  moreover have "st' ! fr = st ! fr"
  proof -
    have "st' ! fr = take (length st) st' ! fr" using assms(1) by simp
    then show ?thesis using main by simp
  qed
  ultimately show ?thesis by simp
qed


section \<open>The capture on a small frame\<close>

lemma small_frame_rows: "small_frame =
  [[(0,0,0),(0,0,0),(0,0,0),(0,0,0)], [(0,0,0),(0,0,0),(0,0,0),(0,0,0)],
   [(0,0,0),(0,0,0),(0,0,0),(0,0,0)], [(0,0,0),(0,0,0),(0,0,0),(0,0,0)]]"
  by (simp add: small_frame_def numeral_eq_Suc)

lemma small_frame_shape: "img_height small_frame = 4" "img_width small_frame = 4"
  by (simp_all add: small_frame_rows img_height_def img_width_def)

lemma small_frame_crop: "crop small_frame 0 68 0 68 = small_frame"
  by (simp add: small_frame_rows crop_def slice_list_def slice_range_def slice_bound_def)

lemma small_frame_resize: "nearest_resize small_frame (1, 1) = [[(0, 0, 0)]]"
  by (simp add: small_frame_rows nearest_resize_def img_width_def)

lemma small_frame_fill: "fill_region small_frame (- 134) 4 0 4 (0, 0, 0) = small_frame"
  by (simp add: small_frame_rows fill_region_def assign_region_def slice_range_def slice_bound_def
        img_height_def img_width_def enumerate_eq_zip upt_rec)

lemma small_frame_fill_plate: "fill_region small_frame 65 65 (- 61) (- 60) (0, 0, 0) = small_frame"
  by (simp add: small_frame_rows fill_region_def assign_region_def slice_range_def slice_bound_def
        img_height_def img_width_def enumerate_eq_zip upt_rec)

lemma to_double_quarter: "to_double (1 / 4) = 1 / 4"
  using to_double_exact[of 1 "- 2"] by (simp add: power_int_minus)

lemma to_double_one: "to_double 1 = 1"
  using to_double_of_int[of 1] by simp

lemma overlay_height_small: "overlay_height_of 4 1 4 = Inr 1"
  using float_of_int_small[of 4]
  by (simp add: overlay_height_of_def check_finite_def ebind_def to_double_quarter fmul_def
        to_double_one py_trunc_def)

lemma radius_small: "corner_radius 4 = Inr 5"
  unfolding corner_radius_eq using float_of_int_small[of 4] by (simp add: ebind_def py_trunc_def)

lemma thickness_small: "corner_thickness 4 = Inr 1"
proof -
  have "py_trunc (1 / 25) = 0" by (simp add: py_trunc_def floor_eq_iff)
  then show ?thesis
    unfolding corner_thickness_eq using float_of_int_small[of 4] by (simp add: ebind_def)
qed

lemma padded_small:
  "padded_low (PInt 0) = Inr 0" "padded_high 4 (PInt 4) = Inr 4"
  by (simp_all add: padded_low_def padded_high_def ebind_def num_max_def num_min_def padding_def)

lemma draw_identity: "r < length st \<Longrightarrow> draw r (\<lambda>img. img) st = (Inr (), st)"
  by (simp add: draw_def sbind_def read_frame_def)

lemma fetch_fake_narrow:
  assumes "r < length st" "img_width (st ! r) - 50 < tw"
  shows "fetch_text_properties (fake_canvas (tw, th)) label r st = (Inr ((tw, th), scale_seq 12), st)"
proof -
  let ?be = "fake_canvas (tw, th)"
  have g: "getTextSize ?be l f s t = (tw, th)" for l f s t by (simp add: fake_canvas_def)
  have "shrink_to_fit ?be label (img_width (st ! r) - 50) (tw, th) (scale_seq 0)
          = Some ((tw, th), scale_seq 12)"
    using never_fits[where be = ?be and label = label and mw = "img_width (st ! r) - 50"
        and sz = "(tw, th)" and n = 0] assms(2)
    by (simp add: g)
  then show ?thesis
    using assms(1)
    by (simp add: fetch_text_properties_def sbind_def read_frame_def lift_def g label_padding_def)
qed

lemma example_fields:
  "x1 example_detection = Some (PInt 0)" "y1 example_detection = Some (PInt 0)"
  "x2 example_detection = Some (PInt 4)" "y2 example_detection = Some (PInt 4)"
  "offender example_detection = Some (PBool True)"
  "plate_text example_detection = Inr (PStr ''AB12 CDE'')"
  by (simp_all add: example_detection_def plate_text_def)

lemma corners_small:
  "annotate_bbox_corners (fake_canvas ts) 1 example_detection [small_frame, small_frame]
     = (Inr 1, [small_frame, small_frame])"
  by (simp add: annotate_bbox_corners_def example_fields dkey_def ebind_def sbind_def lift_def
        detection_size_def radius_small thickness_small bbox_corners_def draw_identity
        sreturn_def fake_canvas_def)

lemma crop_small:
  "crop_and_upscale (fake_canvas ts) 0 example_detection [small_frame]
     = (Inr (1, 4, 4, 1, [[(0, 0, 0)]]), [small_frame, small_frame])"
proof -
  have c: "sbind (copy 0) f [small_frame] = f 1 [small_frame, small_frame]" for f :: "frame \<Rightarrow> 'a prog"
    using sbind_copy[of 0 "[small_frame]" f] by simp
  have r: "resize (fake_canvas ts) = nearest_resize" by (simp add: fake_canvas_def)
  show ?thesis
    unfolding crop_and_upscale_def
    by (simp add: sbind_lift example_fields dkey_def c)
       (simp add: sbind_def corners_small read_frame_def lift_def small_frame_shape padded_small
          overlay_height_small cv2_resize_def padding_def small_frame_crop r small_frame_resize
          sreturn_def corners_small[unfolded One_nat_def])
qed

lemma draw_fixed: "r < length st \<Longrightarrow> f (st ! r) = st ! r \<Longrightarrow> draw r f st = (Inr (), st)"
  by (simp add: draw_def sbind_def read_frame_def)

lemma example_label:
  "create_label be example_detection ''traffic_violation'' (PStr ''12:00'')
     = Inr ''ID: 7 | Captured: 12:00 | Speed: 42mph''"
  by (simp add: create_label_def detection_labels_def example_detection_def ebind_def dget_def
        plate_text_def fixed2_half show_int_def show_nat.simps[of 42] show_nat_digit digit_char_def)

lemma paste_small:
  "paste_overlay 1 4 4 (- 61) 64 1 1 up st = (Inr (), st)"
  by (simp add: paste_overlay_def overlay_guard_def sreturn_def)

lemma plate_small:
  "render_license_plate (fake_canvas (10, 10)) 1 (PStr ''AB12 CDE'') (- 61) 64 1 1
     [small_frame, small_frame] = (Inr (), [small_frame, small_frame])"
proof -
  have d: "draw 1 (\<lambda>img. fill_region img 65 65 (- 61) (- 60) (0, 0, 0)) [small_frame, small_frame]
             = (Inr (), [small_frame, small_frame])"
    by (rule draw_fixed) (simp_all add: small_frame_fill_plate)
  have f: "fetch_text_properties (fake_canvas (10, 10)) l 1 [small_frame, small_frame]
             = (Inr ((10, 10), scale_seq 12), [small_frame, small_frame])" for l
    by (rule fetch_fake_narrow) (simp_all add: small_frame_shape)
  have p: "draw 1 (\<lambda>img. putText (fake_canvas (10, 10)) img t pt fnt sc col th aa) [small_frame, small_frame]
             = (Inr (), [small_frame, small_frame])" for t pt fnt sc col th aa
    by (rule draw_fixed) (simp_all add: fake_canvas_def)
  show ?thesis
    unfolding render_license_plate_def
    by (simp add: sbind_def read_frame_def small_frame_shape lift_def
          d[unfolded One_nat_def] f[unfolded One_nat_def] p[unfolded One_nat_def])
qed

lemma metadata_small:
  "append_capture_metadata (fake_canvas (10, 10)) 1 example_detection (PStr ''12:00'') 4 4
     [small_frame, small_frame] = (Inr (), [small_frame, small_frame])"
proof -
  have d: "draw 1 (\<lambda>img. fill_region img (- 134) 4 0 4 (0, 0, 0)) [small_frame, small_frame]
             = (Inr (), [small_frame, small_frame])"
    by (rule draw_fixed) (simp_all add: small_frame_fill)
  have f: "fetch_text_properties (fake_canvas (10, 10)) l 1 [small_frame, small_frame]
             = (Inr ((10, 10), scale_seq 12), [small_frame, small_frame])" for l
    by (rule fetch_fake_narrow) (simp_all add: small_frame_shape)
  have p: "draw 1 (\<lambda>img. putText (fake_canvas (10, 10)) img t pt fnt sc col th aa) [small_frame, small_frame]
             = (Inr (), [small_frame, small_frame])" for t pt fnt sc col th aa
    by (rule draw_fixed) (simp_all add: fake_canvas_def)
  show ?thesis
    unfolding append_capture_metadata_def
    by (simp add: sbind_def lift_def example_label padding_def
          d[unfolded One_nat_def] f[unfolded One_nat_def] p[unfolded One_nat_def])
qed

lemma capture_small:
  "capture_traffic_violation (fake_canvas (10, 10)) 0 example_detection (PStr ''12:00'') [small_frame]
     = (Inr 1, [small_frame, small_frame])"
  unfolding capture_traffic_violation_def
  by (simp add: sbind_def lift_def example_fields crop_small padding_def sreturn_def
        paste_small[unfolded One_nat_def] plate_small[unfolded One_nat_def]
        metadata_small[unfolded One_nat_def])

theorem capture_leaves_input_unmodified_witness:
  "0 < length [small_frame]
   \<and> capture_traffic_violation (fake_canvas (10, 10)) 0 example_detection (PStr ''12:00'') [small_frame]
       = (Inr 1, [small_frame, small_frame])
   \<and> take (length [small_frame]) [small_frame, small_frame] = [small_frame]
   \<and> [small_frame, small_frame] ! 0 = [small_frame] ! 0
   \<and> (1::nat) = length [small_frame]
   \<and> length [small_frame, small_frame] = Suc (length [small_frame])"
  using capture_leaves_input_unmodified[OF _ capture_small] capture_small by simp

section \<open>The overlay guard (C1)\<close>

lemma img_width_replicate: "0 < n \<Longrightarrow> img_width (replicate n r) = int (length r)"
  by (cases n) (simp_all add: img_width_def)

lemma narrow_shape: "img_height narrow_frame = 80" "img_width narrow_frame = 40"
  by (simp_all add: narrow_frame_def narrow_row_def img_height_def img_width_replicate)

lemma narrow_crop: "crop narrow_frame 14 144 0 104 = replicate 66 narrow_row"
  by (simp add: narrow_frame_def crop_def slice_list_def slice_range_def slice_bound_def narrow_row_def)

lemma narrow_resize: "nearest_resize (replicate 66 narrow_row) (10, 16) = striped_overlay"
  by code_simp


lemma to_double_33_2: "to_double (33 / 2) = 33 / 2"
  using to_double_half_int[of 33] by simp

lemma overlay_height_narrow: "overlay_height_of 66 10 40 = Inr 16"
proof -
  have t: "py_trunc (33 / 2) = 16" by (simp add: py_trunc_def floor_eq_iff)
  show ?thesis
    using float_of_int_small[of 66]
    by (simp add: overlay_height_of_def check_finite_def ebind_def to_double_quarter fmul_def
          to_double_33_2 t)
qed

lemma radius_narrow: "corner_radius 2 = Inr 5"
  unfolding corner_radius_eq using float_of_int_small[of 2] by (simp add: ebind_def py_trunc_def)

lemma thickness_narrow: "corner_thickness 2 = Inr 1"
proof -
  have "py_trunc (1 / 50) = 0" by (simp add: py_trunc_def floor_eq_iff)
  then show ?thesis
    unfolding corner_thickness_eq using float_of_int_small[of 2] by (simp add: ebind_def)
qed

lemma padded_narrow:
  "padded_low (PInt 10) = Inr 0" "padded_low (PInt 78) = Inr 14"
  "padded_high 40 (PInt 20) = Inr 40" "padded_high 80 (PInt 80) = Inr 80"
  by (simp_all add: padded_low_def padded_high_def ebind_def num_max_def num_min_def padding_def)

lemma edge_fields:
  "x1 edge_detection = Some (PInt 10)" "y1 edge_detection = Some (PInt 78)"
  "x2 edge_detection = Some (PInt 20)" "y2 edge_detection = Some (PInt 80)"
  "offender edge_detection = Some (PBool True)"
  by (simp_all add: edge_detection_def)

lemma corners_narrow:
  "annotate_bbox_corners (fake_canvas ts) (Suc 0) edge_detection [narrow_frame, narrow_frame]
     = (Inr (Suc 0), [narrow_frame, narrow_frame])"
  by (simp add: annotate_bbox_corners_def edge_fields dkey_def ebind_def sbind_def lift_def
        detection_size_def radius_narrow thickness_narrow bbox_corners_def draw_identity
        sreturn_def fake_canvas_def)

lemma crop_narrow:
  "crop_and_upscale (fake_canvas ts) 0 edge_detection [narrow_frame]
     = (Inr (1, 80, 40, 16, striped_overlay), [narrow_frame, narrow_frame])"
proof -
  have c: "sbind (copy 0) f [narrow_frame] = f 1 [narrow_frame, narrow_frame]" for f :: "frame \<Rightarrow> 'a prog"
    using sbind_copy[of 0 "[narrow_frame]" f] by simp
  have r: "resize (fake_canvas ts) = nearest_resize" by (simp add: fake_canvas_def)
  have nz: "img_height (replicate 66 narrow_row) \<noteq> 0" "img_width (replicate 66 narrow_row) \<noteq> 0"
    by (simp_all add: img_height_def img_width_replicate narrow_row_def)
  show ?thesis
    unfolding crop_and_upscale_def
    by (simp add: sbind_lift edge_fields dkey_def c)
       (simp add: sbind_def corners_narrow read_frame_def lift_def narrow_shape padded_narrow
          overlay_height_narrow cv2_resize_def padding_def narrow_crop r narrow_resize nz
          sreturn_def)
qed

lemma assign_region_nth:
  assumes "i < length img"
  shows "assign_region img ya yb xa xb f ! i =
     (if fst (slice_range (img_height img) ya yb) \<le> i \<and> i < snd (slice_range (img_height img) ya yb)
      then take (fst (slice_range (img_width img) xa xb)) (img ! i)
           @ map (f (i - fst (slice_range (img_height img) ya yb)))
               [0..<snd (slice_range (img_width img) xa xb) - fst (slice_range (img_width img) xa xb)]
           @ drop (snd (slice_range (img_width img) xa xb)) (img ! i)
      else img ! i)"
  using assms
  by (simp add: assign_region_def split_beta nth_enumerate_eq)

lemma striped_shape: "length striped_overlay = 16" "img_width striped_overlay = 10"
  by (simp_all add: striped_overlay_def img_width_replicate)

lemma striped_pixel: "striped_overlay ! 0 ! 5 = (0, 0, 0)"
  by (simp add: striped_overlay_def nth_append)

lemma narrow_pixel: "narrow_frame ! 64 ! 11 = (255, 255, 255)"
  by (simp add: narrow_frame_def narrow_row_def nth_append)

lemma narrow_ranges:
  "slice_range (img_height narrow_frame) 64 80 = (64, 80)"
  "slice_range (img_width narrow_frame) (- 34) (- 24) = (6, 16)"
  by (simp_all add: narrow_shape slice_range_def slice_bound_def)

lemma paste_narrow:
  "paste_overlay 1 80 40 (- 34) 64 10 16 striped_overlay [narrow_frame, narrow_frame]
     = (Inr (), [narrow_frame,
          assign_region narrow_frame 64 80 (- 34) (- 24) (\<lambda>i j. striped_overlay ! i ! j)])"
  by (simp add: paste_overlay_def overlay_guard_def sbind_def read_frame_def lift_def
        paste_region_def narrow_ranges striped_shape draw_def)

lemma pasted_pixel:
  "assign_region narrow_frame 64 80 (- 34) (- 24) (\<lambda>i j. striped_overlay ! i ! j) ! 64 ! 11 = (0, 0, 0)"
proof -
  have l: "(64::nat) < length narrow_frame" by (simp add: narrow_frame_def)
  have r: "narrow_frame ! 64 = narrow_row" by (simp add: narrow_frame_def)
  show ?thesis
    unfolding assign_region_nth[OF l] narrow_ranges r
    by (simp add: nth_append narrow_row_def striped_pixel)
qed

lemma nearest_resize_uniform:
  assumes "0 < n" "0 < m" "0 < w" "0 < h"
  shows "nearest_resize (replicate n (replicate m px)) (w, h) = replicate (nat h) (replicate (nat w) px)"
proof -
  have wd: "nat (img_width (replicate n (replicate m px))) = m"
    using assms(1) by (simp add: img_width_replicate)
  have row: "replicate n (replicate m px) ! (i * n div nat h) = replicate m px" if "i < nat h" for i
  proof -
    have "i * n < n * nat h" using that assms(1) by (simp add: mult.commute)
    then have "i * n div nat h < n" using assms(4) by (simp add: div_less_iff_less_mult)
    then show ?thesis by simp
  qed
  have px: "replicate m px ! (j * m div nat w) = px" if "j < nat w" for j
  proof -
    have "j * m < m * nat w" using that assms(2) by (simp add: mult.commute)
    then have "j * m div nat w < m" using assms(3) by (simp add: div_less_iff_less_mult)
    then show ?thesis by simp
  qed
  have inner: "map (\<lambda>j. replicate n (replicate m px) ! (i * n div nat h) ! (j * m div nat w)) [0..<nat w]
      = replicate (nat w) px" if "i < nat h" for i
  proof -
    have "map (\<lambda>j. replicate n (replicate m px) ! (i * n div nat h) ! (j * m div nat w)) [0..<nat w]
        = map (\<lambda>j. px) [0..<nat w]"
      by (rule map_cong[OF refl]) (simp add: row[OF that] px)
    then show ?thesis by (simp add: map_replicate_const)
  qed
  have "map (\<lambda>i. map (\<lambda>j. replicate n (replicate m px) ! (i * n div nat h) ! (j * m div nat w)) [0..<nat w])
            [0..<nat h]
      = map (\<lambda>i. replicate (nat w) px) [0..<nat h]"
    by (rule map_cong[OF refl]) (simp add: inner)
  then show ?thesis
    by (simp add: nearest_resize_def wd map_replicate_const)
qed

lemma wide_shape: "img_height wide_frame = 81" "img_width wide_frame = 64"
  by (simp_all add: wide_frame_def img_height_def img_width_replicate)

lemma wide_crop: "crop wide_frame 0 132 0 128 = replicate 81 (replicate 64 (0, 0, 0))"
  by (simp add: wide_frame_def crop_def slice_list_def slice_range_def slice_bound_def)

lemma overlay_height_wide: "overlay_height_of 68 16 64 = Inr 17"
proof -
  have a: "to_double 17 = 17" using to_double_of_int[of 17] by simp
  show ?thesis
    using float_of_int_small[of 68]
    by (simp add: overlay_height_of_def check_finite_def ebind_def to_double_quarter fmul_def a
          py_trunc_def)
qed

lemma padded_wide: "padded_high 64 (PInt 4) = Inr 64" "padded_high 81 (PInt 4) = Inr 68"
  by (simp_all add: padded_high_def ebind_def num_min_def padding_def)

lemma corners_wide:
  "annotate_bbox_corners (fake_canvas ts) (Suc 0) example_detection [wide_frame, wide_frame]
     = (Inr (Suc 0), [wide_frame, wide_frame])"
  by (simp add: annotate_bbox_corners_def example_fields dkey_def ebind_def sbind_def lift_def
        detection_size_def radius_small thickness_small bbox_corners_def draw_identity
        sreturn_def fake_canvas_def)

lemma crop_wide:
  "crop_and_upscale (fake_canvas ts) 0 example_detection [wide_frame]
     = (Inr (1, 81, 64, 17, replicate 17 (replicate 16 (0, 0, 0))), [wide_frame, wide_frame])"
proof -
  have c: "sbind (copy 0) f [wide_frame] = f 1 [wide_frame, wide_frame]" for f :: "frame \<Rightarrow> 'a prog"
    using sbind_copy[of 0 "[wide_frame]" f] by simp
  have r: "resize (fake_canvas ts) = nearest_resize" by (simp add: fake_canvas_def)
  have nz: "img_height (replicate 81 (replicate 64 (0, 0, 0) :: pixel list)) \<noteq> 0"
      "img_width (replicate 81 (replicate 64 (0, 0, 0) :: pixel list)) \<noteq> 0"
    by (simp_all add: img_height_def img_width_replicate)
  have rs: "nearest_resize (replicate 81 (replicate 64 (0, 0, 0))) (16, 17)
      = replicate 17 (replicate 16 (0, 0, 0))"
    using nearest_resize_uniform[of 81 64 16 17 "(0, 0, 0)"] by simp
  show ?thesis
    unfolding crop_and_upscale_def
    by (simp add: sbind_lift example_fields dkey_def c)
       (simp add: sbind_def corners_wide read_frame_def lift_def wide_shape padded_small padded_wide
          overlay_height_wide cv2_resize_def padding_def wide_crop r rs nz sreturn_def)
qed

lemma paste_wide:
  "paste_overlay (Suc 0) 81 64 (- 16) 64 16 17 (replicate 17 (replicate 16 (0, 0, 0)))
     [wide_frame, wide_frame] = (Inl ValueError, [wide_frame, wide_frame])"
  by (simp add: paste_overlay_def overlay_guard_def sbind_def read_frame_def lift_def
        paste_region_def wide_shape slice_range_def slice_bound_def img_width_replicate)

lemma capture_wide:
  "capture_traffic_violation (fake_canvas (10, 10)) 0 example_detection (PStr ''12:00'') [wide_frame]
     = (Inl ValueError, [wide_frame, wide_frame])"
  unfolding capture_traffic_violation_def
  by (simp add: sbind_def lift_def example_fields crop_wide padding_def paste_wide)

text \<open>
  C1, at two failing inputs. On a frame of 80 rows by 40 columns the computed overlay
  rectangle has \<open>overlay_x = 40 - 10 - 64 = -34\<close>, so it does not fit within the frame
  bounds, yet the test of line 489 holds and the paste is made: numpy counts the
  negative columns from the right edge, and the pixel at row 64, column 11 of the copy,
  white before, is black after the paste. On a frame of 81 rows by 64 columns
  \<open>overlay_x = 64 - 16 - 64 = -16\<close>, the test holds again, the columns \<open>-16:0\<close> are an
  empty slice and the assignment raises ValueError: the overlay is neither pasted nor
  silently skipped, and no bar is drawn.
\<close>

theorem overlay_pasted_outside_frame:
  "crop_and_upscale (fake_canvas (10, 10)) 0 edge_detection [narrow_frame]
     = (Inr (1, 80, 40, 16, striped_overlay), [narrow_frame, narrow_frame])
   \<and> (40::int) - 40 div 4 - padding = - 34 \<and> (40::int) div 4 = 10 \<and> padding = 64
   \<and> \<not> fits_within_frame 80 40 (- 34) 64 10 16
   \<and> overlay_guard 80 40 (- 34) 64 10 16
   \<and> fst (paste_overlay 1 80 40 (- 34) 64 10 16 striped_overlay [narrow_frame, narrow_frame]) = Inr ()
   \<and> [narrow_frame, narrow_frame] ! 1 ! 64 ! 11 = (255, 255, 255)
   \<and> snd (paste_overlay 1 80 40 (- 34) 64 10 16 striped_overlay [narrow_frame, narrow_frame])
        ! 1 ! 64 ! 11 = (0, 0, 0)
   \<and> crop_and_upscale (fake_canvas (10, 10)) 0 example_detection [wide_frame]
       = (Inr (1, 81, 64, 17, replicate 17 (replicate 16 (0, 0, 0))), [wide_frame, wide_frame])
   \<and> \<not> fits_within_frame 81 64 (- 16) 64 16 17
   \<and> overlay_guard 81 64 (- 16) 64 16 17
   \<and> capture_traffic_violation (fake_canvas (10, 10)) 0 example_detection (PStr ''12:00'') [wide_frame]
       = (Inl ValueError, [wide_frame, wide_frame])"
  by (simp add: crop_narrow padding_def fits_within_frame_def overlay_guard_def
        paste_narrow[unfolded One_nat_def] narrow_pixel pasted_pixel crop_wide capture_wide)

end
